theory Spec2Isabelle
  imports Main "HOL-Library.Word"
begin

unbundle bit_operations_syntax

section \<open>The flash driver of drivers/flash/flash\_infineon\_pdl.c\<close>

text \<open>
  The driver runs on a 32-bit microcontroller (PSoC 4, ILP32): \<open>uint32_t\<close>, \<open>size_t\<close>
  and \<open>uintptr_t\<close> are 32-bit unsigned integers and \<open>off_t\<close> is a 32-bit signed
  integer. All of them are \<open>32 word\<close>; an \<open>off_t\<close> is read with \<open>sint\<close> and
  compared with \<open><s\<close> where the C compares it as a signed value (\<open>offset < 0\<close>). Where
  C's usual arithmetic conversions bring an \<open>off_t\<close> and a \<open>uint32_t\<close> together (in
  \<open>%\<close>, in \<open><\<close> and in \<open>+\<close>), the \<open>off_t\<close> is converted to unsigned, which keeps
  its 32 bits: these are the unsigned \<open>mod\<close>, \<open><\<close> and \<open>+\<close> of words.
\<close>

type_synonym uint8_t = "8 word"
type_synonym uint32_t = "32 word"
type_synonym uint64_t = "64 word"
type_synonym size_t = "32 word"
type_synonym uintptr_t = "32 word"
type_synonym off_t = "32 word"

text \<open>
  Memory seen through a pointer \<open>p\<close>: byte \<open>i\<close> is the byte stored at \<open>p + i\<close>.
\<close>

type_synonym buffer = "nat \<Rightarrow> uint8_t"

text \<open>The memory-mapped flash: the byte stored at each absolute address.\<close>

type_synonym flash = "uint32_t \<Rightarrow> uint8_t"

record ifx_flash_config =
  base_addr :: uint32_t
  max_addr :: uint32_t
  write_block_size :: size_t
  erase_block_size :: size_t

record flash_parameters_t =
  fp_write_block_size :: size_t
  erase_value :: uint8_t
  no_explicit_erase :: bool

text \<open>
  The static \<open>flash_parameters\<close>; its \<open>write_block_size\<close> is the devicetree
  property, taken as a parameter.
\<close>

definition flash_parameters :: "size_t \<Rightarrow> flash_parameters_t" where
  "flash_parameters dt_write_block_size =
     \<lparr>fp_write_block_size = dt_write_block_size, erase_value = 0xFF, no_explicit_erase = True\<rparr>"

text \<open>The values of \<open>errno.h\<close>.\<close>

definition EIO :: int where
  "EIO = 5"

definition EINVAL :: int where
  "EINVAL = 22"

text \<open>
  The status of the vendor library: the driver only tells \<open>CY_FLASH_DRV_SUCCESS\<close> from
  every other code.
\<close>

datatype cy_en_flashdrv_status_t = CY_FLASH_DRV_SUCCESS | CY_FLASH_DRV_ERROR nat

text \<open>
  The row-program primitive \<open>Cy_Flash_WriteRow(rowAddr, data)\<close> belongs to the vendor
  library; the driver's functions take it as a parameter. It receives the row address and
  the row it reads through its pointer argument, runs on the state of the hardware and
  returns a status and the new state.
\<close>

type_synonym 'h Cy_Flash_WriteRow_t =
  "uint32_t \<Rightarrow> uint8_t list \<Rightarrow> 'h \<Rightarrow> cy_en_flashdrv_status_t \<times> 'h"

text \<open>
  What C leaves undefined is a value of the model: the remainder by a block size of zero,
  and a copy of \<open>row_len\<close> bytes into a row buffer of \<open>row_len / 4\<close> words that is
  shorter than \<open>row_len\<close> bytes. Declaring the row buffer is no fault by itself, also
  where \<open>row_len / 4\<close> is zero; only the copy into it is.
\<close>

datatype fault = Division_By_Zero | Buffer_Overflow

text \<open>
  A call returns \<open>None\<close> when its loop never ends, \<open>Some (Inl f)\<close> when it runs into
  undefined behaviour and \<open>Some (Inr (r, hw))\<close> when it returns \<open>r\<close> and leaves the
  hardware in state \<open>hw\<close>.
\<close>

type_synonym 'h outcome = "(fault + int \<times> 'h) option"

definition memcpy :: "buffer \<Rightarrow> buffer \<Rightarrow> nat \<Rightarrow> buffer" where
  "memcpy dst src n = (\<lambda>i. if i < n then src i else dst i)"

definition memset :: "buffer \<Rightarrow> uint8_t \<Rightarrow> nat \<Rightarrow> buffer" where
  "memset dst c n = (\<lambda>i. if i < n then c else dst i)"

text \<open>Pointer arithmetic \<open>p + n\<close> on a byte pointer.\<close>

definition ptr_add :: "buffer \<Rightarrow> nat \<Rightarrow> buffer" where
  "ptr_add p n = (\<lambda>i. p (n + i))"

text \<open>The row of \<open>row_len\<close> bytes that the primitive reads through its pointer argument.\<close>

definition row_at :: "uint32_t \<Rightarrow> buffer \<Rightarrow> uint8_t list" where
  "row_at row_len p = map p [0..<unat row_len]"

text \<open>The size in bytes of \<open>uint32_t row_buf[row_len / sizeof(uint32_t)]\<close>.\<close>

definition sizeof_row_buf :: "uint32_t \<Rightarrow> nat" where
  "sizeof_row_buf row_len = 4 * unat (row_len div 4)"

subsection \<open>flash\_ifx\_write\<close>

text \<open>The loop of the branch that stages each row through \<open>row_buf\<close>.\<close>

partial_function (option) write_loop_staged ::
  "'h Cy_Flash_WriteRow_t \<Rightarrow> uint32_t \<Rightarrow> buffer \<Rightarrow> uint32_t \<Rightarrow> buffer \<Rightarrow> size_t \<Rightarrow> 'h
   \<Rightarrow> (fault + int \<times> 'h) option" where
  "write_loop_staged Cy_Flash_WriteRow row_len row_buf write_offset src_ptr remaining_len hw =
     (if 0 < remaining_len then
        if sizeof_row_buf row_len < unat row_len then Some (Inl Buffer_Overflow)
        else
          case Cy_Flash_WriteRow write_offset
                 (row_at row_len (memcpy row_buf src_ptr (unat row_len))) hw of
            (status, hw') \<Rightarrow>
              if status \<noteq> CY_FLASH_DRV_SUCCESS then Some (Inr (- EIO, hw'))
              else write_loop_staged Cy_Flash_WriteRow row_len
                     (memcpy row_buf src_ptr (unat row_len))
                     (write_offset + row_len) (ptr_add src_ptr (unat row_len))
                     (remaining_len - row_len) hw'
      else Some (Inr (0, hw)))"

text \<open>The loop of the zero-copy branch.\<close>

partial_function (option) write_loop_direct ::
  "'h Cy_Flash_WriteRow_t \<Rightarrow> uint32_t \<Rightarrow> uint32_t \<Rightarrow> buffer \<Rightarrow> size_t \<Rightarrow> 'h
   \<Rightarrow> (fault + int \<times> 'h) option" where
  "write_loop_direct Cy_Flash_WriteRow row_len write_offset src_ptr remaining_len hw =
     (if 0 < remaining_len then
        case Cy_Flash_WriteRow write_offset (row_at row_len src_ptr) hw of
          (status, hw') \<Rightarrow>
            if status \<noteq> CY_FLASH_DRV_SUCCESS then Some (Inr (- EIO, hw'))
            else write_loop_direct Cy_Flash_WriteRow row_len
                   (write_offset + row_len) (ptr_add src_ptr (unat row_len))
                   (remaining_len - row_len) hw'
      else Some (Inr (0, hw)))"

text \<open>
  \<open>flash_ifx_write(dev, offset, data, remaining_len)\<close>. The pointer \<open>data\<close> is its
  address \<open>data_addr\<close> and the memory \<open>data\<close> behind it; \<open>stack\<close> is the indeterminate
  initial content of the row buffer.
\<close>

definition flash_ifx_write ::
  "'h Cy_Flash_WriteRow_t \<Rightarrow> ifx_flash_config \<Rightarrow> buffer \<Rightarrow> off_t \<Rightarrow> uintptr_t \<Rightarrow> buffer
   \<Rightarrow> size_t \<Rightarrow> 'h \<Rightarrow> (fault + int \<times> 'h) option" where
  "flash_ifx_write Cy_Flash_WriteRow cfg stack offset data_addr data remaining_len hw =
     (let row_len = write_block_size cfg in
      if remaining_len = 0 then Some (Inr (0, hw))
      else if offset <s 0 then Some (Inr (- EINVAL, hw))
      else if row_len = 0 then Some (Inl Division_By_Zero)
      else if offset mod row_len \<noteq> 0 \<or> remaining_len mod row_len \<noteq> 0
        then Some (Inr (- EINVAL, hw))
      else if max_addr cfg - base_addr cfg < offset then Some (Inr (- EINVAL, hw))
      else
        let write_offset = base_addr cfg + offset in
        if max_addr cfg - write_offset < remaining_len then Some (Inr (- EINVAL, hw))
        else if data_addr AND 0x3 \<noteq> 0
          then write_loop_staged Cy_Flash_WriteRow row_len stack write_offset data
                 remaining_len hw
        else write_loop_direct Cy_Flash_WriteRow row_len write_offset data remaining_len hw)"

subsection \<open>flash\_ifx\_read\<close>

text \<open>The memory behind the pointer \<open>(const void *)addr\<close> into the flash.\<close>

definition flash_at :: "flash \<Rightarrow> uint32_t \<Rightarrow> buffer" where
  "flash_at mem addr = (\<lambda>i. mem (addr + of_nat i))"

text \<open>
  \<open>flash_ifx_read(dev, offset, data, remaining_len)\<close> returns its status and the memory
  behind \<open>data\<close> after the call.
\<close>

definition flash_ifx_read ::
  "ifx_flash_config \<Rightarrow> flash \<Rightarrow> off_t \<Rightarrow> buffer \<Rightarrow> size_t \<Rightarrow> int \<times> buffer" where
  "flash_ifx_read cfg mem offset data remaining_len =
     (if remaining_len = 0 then (0, data)
      else if offset <s 0 \<or> max_addr cfg - base_addr cfg < offset then (- EINVAL, data)
      else
        let read_offset = base_addr cfg + offset in
        if max_addr cfg - read_offset < remaining_len then (- EINVAL, data)
        else (0, memcpy data (flash_at mem read_offset) (unat remaining_len)))"

subsection \<open>flash\_ifx\_erase\<close>

text \<open>The loop that fills the row buffer with \<open>0xFF\<close> and programs it, row after row.\<close>

partial_function (option) erase_loop ::
  "'h Cy_Flash_WriteRow_t \<Rightarrow> uint32_t \<Rightarrow> buffer \<Rightarrow> uint32_t \<Rightarrow> size_t \<Rightarrow> 'h
   \<Rightarrow> (fault + int \<times> 'h) option" where
  "erase_loop Cy_Flash_WriteRow row_len row_buf erase_offset size' hw =
     (if 0 < size' then
        if sizeof_row_buf row_len < unat row_len then Some (Inl Buffer_Overflow)
        else
          case Cy_Flash_WriteRow erase_offset
                 (row_at row_len (memset row_buf 0xFF (unat row_len))) hw of
            (status, hw') \<Rightarrow>
              if status \<noteq> CY_FLASH_DRV_SUCCESS then Some (Inr (- EIO, hw'))
              else erase_loop Cy_Flash_WriteRow row_len
                     (memset row_buf 0xFF (unat row_len))
                     (erase_offset + row_len) (size' - row_len) hw'
      else Some (Inr (0, hw)))"

text \<open>
  \<open>flash_ifx_erase(dev, offset, size)\<close>. The alignment of \<open>offset\<close> is tested before
  its sign: the remainder is taken on the unsigned conversion of \<open>offset\<close>.
\<close>

definition flash_ifx_erase ::
  "'h Cy_Flash_WriteRow_t \<Rightarrow> ifx_flash_config \<Rightarrow> buffer \<Rightarrow> off_t \<Rightarrow> size_t \<Rightarrow> 'h
   \<Rightarrow> (fault + int \<times> 'h) option" where
  "flash_ifx_erase Cy_Flash_WriteRow cfg stack offset size' hw =
     (let row_len = erase_block_size cfg in
      if size' = 0 then Some (Inr (0, hw))
      else if row_len = 0 then Some (Inl Division_By_Zero)
      else if offset mod row_len \<noteq> 0 then Some (Inr (- EINVAL, hw))
      else if size' mod row_len \<noteq> 0 then Some (Inr (- EINVAL, hw))
      else if offset <s 0 \<or> max_addr cfg - base_addr cfg < offset
        then Some (Inr (- EINVAL, hw))
      else
        let erase_offset = base_addr cfg + offset in
        if max_addr cfg - erase_offset < size' then Some (Inr (- EINVAL, hw))
        else erase_loop Cy_Flash_WriteRow row_len stack erase_offset size' hw)"

subsection \<open>flash\_ifx\_get\_size\<close>

text \<open>Returns its status and the value stored into \<open>*size\<close>.\<close>

definition flash_ifx_get_size :: "ifx_flash_config \<Rightarrow> int \<times> uint64_t" where
  "flash_ifx_get_size cfg = (0, ucast (max_addr cfg - base_addr cfg))"

section \<open>Requests and rows, as the specification describes them\<close>

text \<open>
  The specification describes an accepted write or erase as a sequence of rows handed to
  the row-program primitive one after the other, aborted at the first failure. The
  definitions of this section state that view; the lemmas further down relate the loops
  of the driver to it.
\<close>

text \<open>
  A request lies in the region: its offset is not negative and offset plus length does
  not exceed the span \<open>max_addr - base_addr\<close>, all read as integers.
\<close>

definition in_bounds :: "ifx_flash_config \<Rightarrow> off_t \<Rightarrow> size_t \<Rightarrow> bool" where
  "in_bounds cfg offset len \<longleftrightarrow>
     0 \<le> sint offset \<and> sint offset + uint len \<le> uint (max_addr cfg - base_addr cfg)"

text \<open>
  Offset and length are multiples of the block size \<open>B\<close>.
\<close>

definition block_aligned :: "size_t \<Rightarrow> off_t \<Rightarrow> size_t \<Rightarrow> bool" where
  "block_aligned B offset len \<longleftrightarrow> sint offset mod uint B = 0 \<and> uint len mod uint B = 0"

text \<open>
  The \<open>len\<close> bytes from the absolute address \<open>addr\<close> on lie between \<open>base_addr\<close>
  and \<open>max_addr\<close>, without wrapping around.
\<close>

definition within_region :: "ifx_flash_config \<Rightarrow> uint32_t \<Rightarrow> uint32_t \<Rightarrow> bool" where
  "within_region cfg addr len \<longleftrightarrow>
     uint (base_addr cfg) \<le> uint addr \<and> uint addr + uint len \<le> uint (max_addr cfg)"

text \<open>
  Program the rows (address and bytes) in turn; the first failing call ends the
  operation with \<open>-EIO\<close>, and what was programmed before stays.
\<close>

fun program_rows ::
  "'h Cy_Flash_WriteRow_t \<Rightarrow> (uint32_t \<times> uint8_t list) list \<Rightarrow> 'h \<Rightarrow> int \<times> 'h" where
  "program_rows W [] hw = (0, hw)"
| "program_rows W ((addr, row) # rows) hw =
     (case W addr row hw of
        (status, hw') \<Rightarrow>
          if status \<noteq> CY_FLASH_DRV_SUCCESS then (- EIO, hw') else program_rows W rows hw')"

text \<open>
  The \<open>k\<close> rows of a write: row \<open>j\<close> goes to \<open>addr + j * row_len\<close> and holds the
  bytes \<open>j * row_len, ..., (j + 1) * row_len - 1\<close> of the source.
\<close>

fun write_rows :: "uint32_t \<Rightarrow> uint32_t \<Rightarrow> buffer \<Rightarrow> nat \<Rightarrow> (uint32_t \<times> uint8_t list) list" where
  "write_rows row_len addr src 0 = []"
| "write_rows row_len addr src (Suc k) =
     (addr, row_at row_len src) # write_rows row_len (addr + row_len) (ptr_add src (unat row_len)) k"

text \<open>
  The \<open>k\<close> rows of an erase: each holds \<open>row_len\<close> bytes \<open>0xFF\<close>.
\<close>

fun erase_rows :: "uint32_t \<Rightarrow> uint32_t \<Rightarrow> nat \<Rightarrow> (uint32_t \<times> uint8_t list) list" where
  "erase_rows row_len addr 0 = []"
| "erase_rows row_len addr (Suc k) =
     (addr, replicate (unat row_len) 0xFF) # erase_rows row_len (addr + row_len) k"

text \<open>
  The rows of the write and of the erase request with the given offset and length.
\<close>

definition write_request_rows ::
  "ifx_flash_config \<Rightarrow> off_t \<Rightarrow> buffer \<Rightarrow> size_t \<Rightarrow> (uint32_t \<times> uint8_t list) list" where
  "write_request_rows cfg offset data len =
     write_rows (write_block_size cfg) (base_addr cfg + offset) data
       (unat len div unat (write_block_size cfg))"

definition erase_request_rows ::
  "ifx_flash_config \<Rightarrow> off_t \<Rightarrow> size_t \<Rightarrow> (uint32_t \<times> uint8_t list) list" where
  "erase_request_rows cfg offset len =
     erase_rows (erase_block_size cfg) (base_addr cfg + offset)
       (unat len div unat (erase_block_size cfg))"

section \<open>Observing and simulating the row-program primitive\<close>

text \<open>
  A primitive that behaves as \<open>W\<close> and records, in order, the address and the row of
  every call made to it.
\<close>

definition traced ::
  "'h Cy_Flash_WriteRow_t \<Rightarrow> ('h \<times> (uint32_t \<times> uint8_t list) list) Cy_Flash_WriteRow_t" where
  "traced W addr row s =
     (case W addr row (fst s) of (status, hw') \<Rightarrow> (status, (hw', snd s @ [(addr, row)])))"

text \<open>
  The number of calls \<open>program_rows\<close> makes: all rows, or the rows up to and including
  the first one that fails.
\<close>

fun calls_made :: "'h Cy_Flash_WriteRow_t \<Rightarrow> (uint32_t \<times> uint8_t list) list \<Rightarrow> 'h \<Rightarrow> nat" where
  "calls_made W [] hw = 0"
| "calls_made W ((addr, row) # rows) hw =
     (case W addr row hw of
        (status, hw') \<Rightarrow>
          if status \<noteq> CY_FLASH_DRV_SUCCESS then 1 else Suc (calls_made W rows hw'))"

text \<open>
  The state the hardware is in after the primitive has been called on the given rows in
  turn, and the status of call \<open>j\<close> (counted from 0) when the rows are programmed in
  order.
\<close>

definition hw_after :: "'h Cy_Flash_WriteRow_t \<Rightarrow> (uint32_t \<times> uint8_t list) list \<Rightarrow> 'h \<Rightarrow> 'h" where
  "hw_after W rows hw = foldl (\<lambda>h (addr, row). snd (W addr row h)) hw rows"

definition status_of_call ::
  "'h Cy_Flash_WriteRow_t \<Rightarrow> (uint32_t \<times> uint8_t list) list \<Rightarrow> 'h \<Rightarrow> nat
   \<Rightarrow> cy_en_flashdrv_status_t" where
  "status_of_call W rows hw j =
     fst (W (fst (rows ! j)) (snd (rows ! j)) (hw_after W (take j rows) hw))"

text \<open>
  The primitive succeeds on the first \<open>N - 1\<close> rows and fails on row \<open>N\<close> (counted
  from 1).
\<close>

definition fails_first_at ::
  "'h Cy_Flash_WriteRow_t \<Rightarrow> (uint32_t \<times> uint8_t list) list \<Rightarrow> 'h \<Rightarrow> nat \<Rightarrow> bool" where
  "fails_first_at W rows hw N \<longleftrightarrow>
     1 \<le> N \<and> N \<le> length rows
     \<and> (\<forall>j<N - 1. status_of_call W rows hw j = CY_FLASH_DRV_SUCCESS)
     \<and> status_of_call W rows hw (N - 1) \<noteq> CY_FLASH_DRV_SUCCESS"

text \<open>
  A faithful simulator of the primitive on the memory-mapped flash: it stores exactly the
  row it is given, from the row address on, and reports success.
\<close>

definition Cy_Flash_WriteRow_sim :: "flash Cy_Flash_WriteRow_t" where
  "Cy_Flash_WriteRow_sim addr row mem =
     (CY_FLASH_DRV_SUCCESS,
      (\<lambda>a. if unat (a - addr) < length row then row ! unat (a - addr) else mem a))"

text \<open>
  The flash after the \<open>n\<close> bytes \<open>src 0, ..., src (n - 1)\<close> have been stored from
  \<open>addr\<close> on; every other byte is as before.
\<close>

definition store_bytes :: "flash \<Rightarrow> uint32_t \<Rightarrow> nat \<Rightarrow> buffer \<Rightarrow> flash" where
  "store_bytes mem addr n src =
     (\<lambda>a. if unat (a - addr) < n then src (unat (a - addr)) else mem a)"

text \<open>
  Failure injection: the primitive counts its calls; call number \<open>n\<close> (counted from 1)
  fails and leaves the hardware as it is, every other call behaves as \<open>W\<close>.
\<close>

definition failing_at :: "nat \<Rightarrow> 'h Cy_Flash_WriteRow_t \<Rightarrow> ('h \<times> nat) Cy_Flash_WriteRow_t" where
  "failing_at n W addr row s =
     (if Suc (snd s) = n then (CY_FLASH_DRV_ERROR 1, (fst s, Suc (snd s)))
      else case W addr row (fst s) of (status, hw') \<Rightarrow> (status, (hw', Suc (snd s))))"

text \<open>
  A primitive that fails always.
\<close>

definition Cy_Flash_WriteRow_broken :: "unit Cy_Flash_WriteRow_t" where
  "Cy_Flash_WriteRow_broken addr row hw = (CY_FLASH_DRV_ERROR 1, hw)"

text \<open>
  The value a call returns, if it returns.
\<close>

definition returned :: "(fault + int \<times> 'h) option \<Rightarrow> int option" where
  "returned r = (case r of Some (Inr (v, hw)) \<Rightarrow> Some v | _ \<Rightarrow> None)"

section \<open>A concrete device\<close>

text \<open>
  The region \<open>[0x1000, 0x2000)\<close> with rows of 256 bytes, and some memory contents.
\<close>

definition scenario_cfg :: ifx_flash_config where
  "scenario_cfg =
     \<lparr>base_addr = 0x1000, max_addr = 0x2000, write_block_size = 256, erase_block_size = 256\<rparr>"

definition erased_flash :: flash where
  "erased_flash = (\<lambda>a. 0xFF)"

definition zeroed_flash :: flash where
  "zeroed_flash = (\<lambda>a. 0)"

definition erased_buffer :: buffer where
  "erased_buffer = (\<lambda>i. 0xFF)"

definition bytes_AA :: buffer where
  "bytes_AA = (\<lambda>i. 0xAA)"

section \<open>Auxiliary lemmas\<close>

subsection \<open>The loops program the rows of the request\<close>

lemma unat_sub_row:
  fixes remaining row_len :: uint32_t
  assumes "unat remaining = Suc k * unat row_len"
  shows "unat (remaining - row_len) = k * unat row_len"
proof -
  have "unat row_len \<le> unat remaining" using assms by simp
  then have "row_len \<le> remaining" by (simp add: word_le_nat_alt)
  then have "unat (remaining - row_len) = unat remaining - unat row_len"
    by (rule unat_sub)
  then show ?thesis using assms by simp
qed

lemma pos_remaining:
  fixes remaining row_len :: uint32_t
  assumes "row_len \<noteq> 0" "unat remaining = Suc k * unat row_len"
  shows "0 < remaining"
proof -
  have "0 < unat row_len" using assms(1) by (simp add: unat_gt_0)
  then have "0 < unat remaining" using assms(2) by simp
  then show ?thesis by (simp add: unat_gt_0 word_neq_0_conv)
qed

lemma row_at_memcpy: "row_at row_len (memcpy buf src (unat row_len)) = row_at row_len src"
  by (simp add: row_at_def memcpy_def)

lemma row_at_memset:
  "row_at row_len (memset buf c (unat row_len)) = replicate (unat row_len) c"
  by (simp add: row_at_def memset_def list_eq_iff_nth_eq)

lemma sizeof_row_buf_fits:
  assumes "4 dvd unat row_len"
  shows "\<not> sizeof_row_buf row_len < unat row_len"
proof -
  have "unat (row_len div 4) = unat row_len div 4" by (simp add: unat_div)
  then show ?thesis using assms by (simp add: sizeof_row_buf_def)
qed

lemma write_loop_direct_rows:
  assumes "row_len \<noteq> 0" "unat remaining = k * unat row_len"
  shows "write_loop_direct W row_len addr src remaining hw =
           Some (Inr (program_rows W (write_rows row_len addr src k) hw))"
  using assms(2)
proof (induction k arbitrary: addr src remaining hw)
  case 0
  then have "remaining = 0" by (simp add: unat_eq_0)
  then show ?case by (subst write_loop_direct.simps) simp
next
  case (Suc k)
  have pos: "0 < remaining" using pos_remaining [OF assms(1) Suc.prems] .
  have rest: "unat (remaining - row_len) = k * unat row_len"
    using unat_sub_row [OF Suc.prems] .
  show ?case
    by (subst write_loop_direct.simps)
       (simp add: pos Suc.IH [OF rest] split: prod.split)
qed

lemma write_loop_staged_rows:
  assumes "row_len \<noteq> 0" "4 dvd unat row_len" "unat remaining = k * unat row_len"
  shows "write_loop_staged W row_len buf addr src remaining hw =
           Some (Inr (program_rows W (write_rows row_len addr src k) hw))"
  using assms(3)
proof (induction k arbitrary: buf addr src remaining hw)
  case 0
  then have "remaining = 0" by (simp add: unat_eq_0)
  then show ?case by (subst write_loop_staged.simps) simp
next
  case (Suc k)
  have pos: "0 < remaining" using pos_remaining [OF assms(1) Suc.prems] .
  have rest: "unat (remaining - row_len) = k * unat row_len"
    using unat_sub_row [OF Suc.prems] .
  show ?case
    by (subst write_loop_staged.simps)
       (simp add: pos sizeof_row_buf_fits [OF assms(2)] row_at_memcpy Suc.IH [OF rest]
          split: prod.split)
qed

lemma erase_loop_rows:
  assumes "row_len \<noteq> 0" "4 dvd unat row_len" "unat remaining = k * unat row_len"
  shows "erase_loop W row_len buf addr remaining hw =
           Some (Inr (program_rows W (erase_rows row_len addr k) hw))"
  using assms(3)
proof (induction k arbitrary: buf addr remaining hw)
  case 0
  then have "remaining = 0" by (simp add: unat_eq_0)
  then show ?case by (subst erase_loop.simps) simp
next
  case (Suc k)
  have pos: "0 < remaining" using pos_remaining [OF assms(1) Suc.prems] .
  have rest: "unat (remaining - row_len) = k * unat row_len"
    using unat_sub_row [OF Suc.prems] .
  show ?case
    by (subst erase_loop.simps)
       (simp add: pos sizeof_row_buf_fits [OF assms(2)] row_at_memset Suc.IH [OF rest]
          split: prod.split)
qed

subsection \<open>The validation accepts the requests that are in bounds and aligned\<close>

lemma sless_zero_iff: "(offset <s 0) = (sint offset < 0)" for offset :: off_t
  by (simp add: word_sless_alt)

lemma sint_nonneg_uint:
  fixes offset :: off_t
  assumes "0 \<le> sint offset"
  shows "sint offset = uint offset"
proof -
  have "sint offset < 2 ^ 32" using sint_lt [of offset] by simp
  then have "take_bit 32 (sint offset) = sint offset"
    using assms by (simp add: take_bit_int_eq_self)
  then show ?thesis by (simp add: uint_sint)
qed

lemma word_mod_nonzero_iff: "(a mod b \<noteq> 0) = (uint a mod uint b \<noteq> 0)" for a b :: uint32_t
proof -
  have "(a mod b = 0) = (uint (a mod b) = 0)" by (simp add: uint_0_iff)
  then show ?thesis by (simp add: uint_mod)
qed

lemma remaining_span_check:
  fixes span offset len :: uint32_t
  assumes "\<not> span < offset"
  shows "(span - offset < len) = (uint span < uint offset + uint len)"
proof -
  have "offset \<le> span" using assms by simp
  then have "uint (span - offset) = uint span - uint offset"
    by (simp add: uint_minus_simple_alt)
  then show ?thesis by (simp add: word_less_def) arith
qed

lemma target_span: "max_addr cfg - (base_addr cfg + offset) = max_addr cfg - base_addr cfg - offset"
  by simp

lemma rows_of_len:
  fixes len B :: uint32_t
  assumes "B \<noteq> 0" "uint len mod uint B = 0"
  shows "unat len = (unat len div unat B) * unat B"
proof -
  have "int (unat len mod unat B) = 0"
    using assms(2) by (simp add: zmod_int)
  then have "unat len mod unat B = 0" by simp
  then show ?thesis by (simp add: mod_eq_0_iff_dvd)
qed

lemma validation_accepts:
  fixes offset len :: uint32_t
  assumes "in_bounds cfg offset len"
  shows "\<not> offset <s 0" "\<not> max_addr cfg - base_addr cfg < offset"
    "\<not> max_addr cfg - (base_addr cfg + offset) < len"
proof -
  have nn: "0 \<le> sint offset" and le: "sint offset + uint len \<le> uint (max_addr cfg - base_addr cfg)"
    using assms by (simp_all add: in_bounds_def)
  have su: "sint offset = uint offset" using nn by (rule sint_nonneg_uint)
  show "\<not> offset <s 0" using nn by (simp add: sless_zero_iff)
  have "uint offset \<le> uint (max_addr cfg - base_addr cfg)"
    using le su uint_ge_0 [of len] by linarith
  then show 2: "\<not> max_addr cfg - base_addr cfg < offset"
    by (simp add: word_less_def)
  show "\<not> max_addr cfg - (base_addr cfg + offset) < len"
    using le su by (simp add: target_span remaining_span_check [OF 2])
qed

lemma validation_rejects:
  fixes offset len :: uint32_t
  assumes "\<not> in_bounds cfg offset len"
  shows "offset <s 0 \<or> max_addr cfg - base_addr cfg < offset
    \<or> max_addr cfg - (base_addr cfg + offset) < len"
proof (cases "offset <s 0 \<or> max_addr cfg - base_addr cfg < offset")
  case True
  then show ?thesis by blast
next
  case False
  then have nn: "0 \<le> sint offset" and 2: "\<not> max_addr cfg - base_addr cfg < offset"
    by (simp_all add: sless_zero_iff)
  have su: "sint offset = uint offset" using nn by (rule sint_nonneg_uint)
  have "uint (max_addr cfg - base_addr cfg) < uint offset + uint len"
    using assms nn su by (simp add: in_bounds_def)
  then show ?thesis by (simp add: target_span remaining_span_check [OF 2])
qed

lemma flash_ifx_read_eq:
  "flash_ifx_read cfg mem offset data len =
     (if len = 0 then (0, data)
      else if in_bounds cfg offset len
        then (0, memcpy data (flash_at mem (base_addr cfg + offset)) (unat len))
      else (- EINVAL, data))"
proof (cases "in_bounds cfg offset len")
  case True
  then show ?thesis
    using validation_accepts [OF True] by (simp add: flash_ifx_read_def Let_def)
next
  case False
  then show ?thesis
    using validation_rejects [OF False] by (auto simp add: flash_ifx_read_def Let_def)
qed

lemma alignment_check_write:
  fixes offset len B :: uint32_t
  assumes "\<not> offset <s 0"
  shows "(offset mod B \<noteq> 0 \<or> len mod B \<noteq> 0) = (\<not> block_aligned B offset len)"
proof -
  have "sint offset = uint offset"
    using assms by (simp add: sless_zero_iff sint_nonneg_uint)
  then show ?thesis by (simp add: block_aligned_def word_mod_nonzero_iff)
qed

lemma flash_ifx_write_eq:
  assumes "write_block_size cfg \<noteq> 0"
    and "data_addr AND 0x3 = 0 \<or> 4 dvd unat (write_block_size cfg)"
  shows "flash_ifx_write W cfg stack offset data_addr data len hw =
     (if len = 0 then Some (Inr (0, hw))
      else if in_bounds cfg offset len \<and> block_aligned (write_block_size cfg) offset len
        then Some (Inr (program_rows W
               (write_rows (write_block_size cfg) (base_addr cfg + offset) data
                  (unat len div unat (write_block_size cfg))) hw))
      else Some (Inr (- EINVAL, hw)))"
proof (cases "len = 0 \<or> offset <s 0")
  case True
  then show ?thesis
    using validation_accepts(1) [of cfg offset len]
    by (auto simp add: flash_ifx_write_def Let_def)
next
  case False
  then have nz: "len \<noteq> 0" and nn: "\<not> offset <s 0" by simp_all
  note al = alignment_check_write [OF nn, of "write_block_size cfg" len]
  show ?thesis
  proof (cases "block_aligned (write_block_size cfg) offset len")
    case False
    then show ?thesis using nz nn assms(1) al
      by (simp add: flash_ifx_write_def Let_def)
  next
    case aligned: True
    show ?thesis
    proof (cases "in_bounds cfg offset len")
      case False
      then show ?thesis
        using nz nn assms(1) al aligned validation_rejects [OF False]
        by (auto simp add: flash_ifx_write_def Let_def)
    next
      case True
      have rows: "unat len = (unat len div unat (write_block_size cfg)) * unat (write_block_size cfg)"
        using aligned assms(1) by (intro rows_of_len) (simp_all add: block_aligned_def)
      show ?thesis
      proof (cases "data_addr AND 0x3 = 0")
        case direct: True
        then show ?thesis
          using nz nn assms(1) al aligned True validation_accepts [OF True]
            write_loop_direct_rows [OF assms(1) rows]
          by (simp add: flash_ifx_write_def Let_def)
      next
        case staged: False
        then have "4 dvd unat (write_block_size cfg)" using assms(2) by blast
        then show ?thesis
          using nz nn assms(1) al aligned True validation_accepts [OF True] staged
            write_loop_staged_rows [OF assms(1) _ rows]
          by (simp add: flash_ifx_write_def Let_def)
      qed
    qed
  qed
qed

lemma flash_ifx_erase_eq:
  assumes "erase_block_size cfg \<noteq> 0" and "4 dvd unat (erase_block_size cfg)"
  shows "flash_ifx_erase W cfg stack offset len hw =
     (if len = 0 then Some (Inr (0, hw))
      else if in_bounds cfg offset len \<and> block_aligned (erase_block_size cfg) offset len
        then Some (Inr (program_rows W
               (erase_rows (erase_block_size cfg) (base_addr cfg + offset)
                  (unat len div unat (erase_block_size cfg))) hw))
      else Some (Inr (- EINVAL, hw)))"
proof (cases "len = 0 \<or> offset <s 0")
  case True
  then show ?thesis
    using validation_accepts(1) [of cfg offset len] assms(1)
    by (auto simp add: flash_ifx_erase_def Let_def)
next
  case False
  then have nz: "len \<noteq> 0" and nn: "\<not> offset <s 0" by simp_all
  note al = alignment_check_write [OF nn, of "erase_block_size cfg" len]
  show ?thesis
  proof (cases "block_aligned (erase_block_size cfg) offset len")
    case False
    then show ?thesis using nz nn assms(1) al
      by (auto simp add: flash_ifx_erase_def Let_def)
  next
    case aligned: True
    show ?thesis
    proof (cases "in_bounds cfg offset len")
      case False
      then show ?thesis
        using nz nn assms(1) al aligned validation_rejects [OF False]
        by (auto simp add: flash_ifx_erase_def Let_def)
    next
      case True
      have rows: "unat len = (unat len div unat (erase_block_size cfg)) * unat (erase_block_size cfg)"
        using aligned assms(1) by (intro rows_of_len) (simp_all add: block_aligned_def)
      show ?thesis
        using nz nn assms(1) al aligned True validation_accepts [OF True]
          erase_loop_rows [OF assms(1) assms(2) rows]
        by (simp add: flash_ifx_erase_def Let_def)
    qed
  qed
qed

lemma flash_ifx_write_rejects:
  assumes "len \<noteq> 0" "write_block_size cfg \<noteq> 0"
    and "\<not> (in_bounds cfg offset len \<and> block_aligned (write_block_size cfg) offset len)"
  shows "flash_ifx_write W cfg stack offset data_addr data len hw = Some (Inr (- EINVAL, hw))"
proof (cases "offset <s 0")
  case True
  then show ?thesis using assms(1) by (simp add: flash_ifx_write_def Let_def)
next
  case nn: False
  note al = alignment_check_write [OF nn, of "write_block_size cfg" len]
  show ?thesis
  proof (cases "block_aligned (write_block_size cfg) offset len")
    case False
    then show ?thesis using assms(1,2) nn al
      by (simp add: flash_ifx_write_def Let_def)
  next
    case True
    then have "\<not> in_bounds cfg offset len" using assms(3) by blast
    then show ?thesis
      using assms(1,2) nn al True validation_rejects [of cfg offset len]
      by (auto simp add: flash_ifx_write_def Let_def)
  qed
qed

lemma flash_ifx_write_accepts:
  assumes "len \<noteq> 0" "write_block_size cfg \<noteq> 0"
    and "data_addr AND 0x3 = 0 \<or> 4 dvd unat (write_block_size cfg)"
    and "in_bounds cfg offset len" "block_aligned (write_block_size cfg) offset len"
  shows "flash_ifx_write W cfg stack offset data_addr data len hw =
     Some (Inr (program_rows W
       (write_rows (write_block_size cfg) (base_addr cfg + offset) data
          (unat len div unat (write_block_size cfg))) hw))"
  by (simp add: flash_ifx_write_eq [OF assms(2,3)] assms(1,4,5))

lemma flash_ifx_erase_rejects:
  assumes "len \<noteq> 0" "erase_block_size cfg \<noteq> 0"
    and "\<not> (in_bounds cfg offset len \<and> block_aligned (erase_block_size cfg) offset len)"
  shows "flash_ifx_erase W cfg stack offset len hw = Some (Inr (- EINVAL, hw))"
proof (cases "offset <s 0")
  case True
  then show ?thesis using assms(1,2) by (simp add: flash_ifx_erase_def Let_def)
next
  case nn: False
  note al = alignment_check_write [OF nn, of "erase_block_size cfg" len]
  show ?thesis
  proof (cases "block_aligned (erase_block_size cfg) offset len")
    case False
    then show ?thesis using assms(1,2) nn al
      by (auto simp add: flash_ifx_erase_def Let_def)
  next
    case True
    then have "\<not> in_bounds cfg offset len" using assms(3) by blast
    then show ?thesis
      using assms(1,2) nn al True validation_rejects [of cfg offset len]
      by (auto simp add: flash_ifx_erase_def Let_def)
  qed
qed

lemma flash_ifx_erase_accepts:
  assumes "len \<noteq> 0" "erase_block_size cfg \<noteq> 0" "4 dvd unat (erase_block_size cfg)"
    and "in_bounds cfg offset len" "block_aligned (erase_block_size cfg) offset len"
  shows "flash_ifx_erase W cfg stack offset len hw =
     Some (Inr (program_rows W
       (erase_rows (erase_block_size cfg) (base_addr cfg + offset)
          (unat len div unat (erase_block_size cfg))) hw))"
  by (simp add: flash_ifx_erase_eq [OF assms(2,3)] assms(1,4,5))

lemma beyond_span_not_in_bounds:
  assumes "uint (max_addr cfg - base_addr cfg) < sint offset + uint len
    \<or> uint (max_addr cfg - base_addr cfg) < uint offset + uint len"
  shows "\<not> in_bounds cfg offset len"
proof
  assume ib: "in_bounds cfg offset len"
  then have "sint offset = uint offset" by (simp add: in_bounds_def sint_nonneg_uint)
  then show False using assms ib by (simp add: in_bounds_def)
qed

subsection \<open>Calls and failures\<close>

lemma traced_apply:
  "traced W addr row (hw, log) =
     (fst (W addr row hw), (snd (W addr row hw), log @ [(addr, row)]))"
  by (simp add: traced_def split: prod.split)

lemma program_rows_traced:
  "program_rows (traced W) rows (hw, log) =
     (fst (program_rows W rows hw),
      (snd (program_rows W rows hw), log @ take (calls_made W rows hw) rows))"
proof (induction rows arbitrary: hw log)
  case Nil
  show ?case by simp
next
  case (Cons x rows)
  obtain addr row where x: "x = (addr, row)" by (cases x)
  obtain status hw' where w: "W addr row hw = (status, hw')" by (cases "W addr row hw")
  show ?case
    by (simp add: x w traced_apply Cons.IH)
qed

lemma status_of_call_Cons_0:
  "status_of_call W ((addr, row) # rows) hw 0 = fst (W addr row hw)"
  by (simp add: status_of_call_def hw_after_def)

lemma status_of_call_Cons_Suc:
  "status_of_call W ((addr, row) # rows) hw (Suc j) =
     status_of_call W rows (snd (W addr row hw)) j"
  by (simp add: status_of_call_def hw_after_def)

lemma hw_after_Cons:
  "hw_after W ((addr, row) # rows) hw = hw_after W rows (snd (W addr row hw))"
  by (simp add: hw_after_def)

lemma fails_first_at_Cons:
  assumes "fails_first_at W ((addr, row) # rows) hw N"
  shows "(N = 1 \<and> fst (W addr row hw) \<noteq> CY_FLASH_DRV_SUCCESS)
    \<or> (\<exists>M. N = Suc M \<and> fst (W addr row hw) = CY_FLASH_DRV_SUCCESS
          \<and> fails_first_at W rows (snd (W addr row hw)) M)"
proof (cases "N = 1")
  case True
  then show ?thesis using assms by (simp add: fails_first_at_def status_of_call_Cons_0)
next
  case False
  then obtain M where N: "N = Suc M" and M: "1 \<le> M"
    using assms by (cases N) (auto simp add: fails_first_at_def)
  obtain M' where M': "M = Suc M'" using M by (cases M) auto
  have all: "\<forall>j<M. status_of_call W ((addr, row) # rows) hw j = CY_FLASH_DRV_SUCCESS"
    and last: "status_of_call W ((addr, row) # rows) hw M \<noteq> CY_FLASH_DRV_SUCCESS"
    and len: "M \<le> length rows"
    using assms by (simp_all add: fails_first_at_def N)
  have first: "fst (W addr row hw) = CY_FLASH_DRV_SUCCESS"
    using all M' by (auto simp add: status_of_call_Cons_0 dest: spec [of _ 0])
  have rest: "\<forall>j<M - 1. status_of_call W rows (snd (W addr row hw)) j = CY_FLASH_DRV_SUCCESS"
  proof (intro allI impI)
    fix j assume "j < M - 1"
    then have "Suc j < M" by simp
    then show "status_of_call W rows (snd (W addr row hw)) j = CY_FLASH_DRV_SUCCESS"
      using all status_of_call_Cons_Suc [of W addr row rows hw j] by simp
  qed
  have last': "status_of_call W rows (snd (W addr row hw)) (M - 1) \<noteq> CY_FLASH_DRV_SUCCESS"
    using last by (simp add: M' status_of_call_Cons_Suc)
  show ?thesis
    using N M len first rest last' by (simp add: fails_first_at_def)
qed

lemma program_rows_fail_fast:
  assumes "fails_first_at W rows hw N"
  shows "program_rows W rows hw = (- EIO, hw_after W (take N rows) hw)
    \<and> calls_made W rows hw = N"
  using assms
proof (induction rows arbitrary: hw N)
  case Nil
  then show ?case by (auto simp add: fails_first_at_def)
next
  case (Cons x rows)
  obtain addr row where x: "x = (addr, row)" by (cases x)
  obtain status hw' where w: "W addr row hw = (status, hw')" by (cases "W addr row hw")
  from fails_first_at_Cons [OF Cons.prems [unfolded x]]
  show ?case
  proof (elim disjE conjE exE)
    assume "N = 1" and "fst (W addr row hw) \<noteq> CY_FLASH_DRV_SUCCESS"
    then show ?thesis by (simp add: x w hw_after_def)
  next
    fix M
    assume N: "N = Suc M" and ok: "fst (W addr row hw) = CY_FLASH_DRV_SUCCESS"
      and rest: "fails_first_at W rows (snd (W addr row hw)) M"
    from Cons.IH [OF rest] show ?thesis
      using ok by (simp add: x w N hw_after_Cons)
  qed
qed

lemma traced_fail_fast:
  assumes "fails_first_at W rows hw N"
  shows "program_rows (traced W) rows (hw, []) = (- EIO, (hw_after W (take N rows) hw, take N rows))"
  using program_rows_fail_fast [OF assms] by (simp add: program_rows_traced)

lemma traced_log_subset:
  "set (snd (snd (program_rows (traced W) rows (hw, [])))) \<subseteq> set rows"
  by (simp add: program_rows_traced set_take_subset)

lemma program_rows_returns: "fst (program_rows W rows hw) \<in> {0, - EIO}"
proof (induction rows arbitrary: hw)
  case Nil
  show ?case by simp
next
  case (Cons x rows)
  obtain addr row where x: "x = (addr, row)" by (cases x)
  obtain status hw' where w: "W addr row hw = (status, hw')" by (cases "W addr row hw")
  show ?case using Cons.IH [of hw'] by (simp add: x w)
qed

subsection \<open>Rows lie in the region\<close>

lemma uint_add_no_wrap:
  fixes a b :: uint32_t
  assumes "uint a + uint b \<le> uint (c :: uint32_t)"
  shows "uint (a + b) = uint a + uint b"
proof -
  have "uint c < 2 ^ 32" using uint_lt2p [of c] by simp
  then have "uint a + uint b < 2 ^ LENGTH(32)" using assms by simp
  then show ?thesis by (rule uint_add_lem [THEN iffD1])
qed

lemma in_bounds_within_region:
  assumes "base_addr cfg \<le> max_addr cfg" "in_bounds cfg offset len"
  shows "within_region cfg (base_addr cfg + offset) len"
proof -
  have nn: "0 \<le> sint offset"
    and le: "sint offset + uint len \<le> uint (max_addr cfg - base_addr cfg)"
    using assms(2) by (simp_all add: in_bounds_def)
  have su: "sint offset = uint offset" using nn by (rule sint_nonneg_uint)
  have span: "uint (max_addr cfg - base_addr cfg) = uint (max_addr cfg) - uint (base_addr cfg)"
    using assms(1) by (simp add: uint_minus_simple_alt)
  have "uint (base_addr cfg) + uint offset \<le> uint (max_addr cfg)"
    using le su span uint_ge_0 [of len] by linarith
  then have "uint (base_addr cfg + offset) = uint (base_addr cfg) + uint offset"
    by (rule uint_add_no_wrap)
  then show ?thesis using le su span by (simp add: within_region_def)
qed

lemma write_rows_within_region:
  assumes "uint (base_addr cfg) \<le> uint addr"
    and "uint addr + int k * uint row_len \<le> uint (max_addr cfg)"
    and "(a, row) \<in> set (write_rows row_len addr src k)"
  shows "within_region cfg a row_len"
  using assms
proof (induction k arbitrary: addr src)
  case 0
  then show ?case by simp
next
  case (Suc k)
  have fit: "uint addr + uint row_len \<le> uint (max_addr cfg)"
  proof -
    have "0 \<le> int k * uint row_len" by simp
    moreover have "int (Suc k) * uint row_len = uint row_len + int k * uint row_len"
      by (simp add: algebra_simps)
    ultimately show ?thesis using Suc.prems(2) by linarith
  qed
  have next_addr: "uint (addr + row_len) = uint addr + uint row_len"
    using fit by (rule uint_add_no_wrap)
  show ?case
  proof (cases "(a, row) = (addr, row_at row_len src)")
    case True
    then show ?thesis using Suc.prems(1) fit by (simp add: within_region_def)
  next
    case False
    then have mem: "(a, row) \<in> set (write_rows row_len (addr + row_len) (ptr_add src (unat row_len)) k)"
      using Suc.prems(3) by auto
    have 1: "uint (base_addr cfg) \<le> uint (addr + row_len)"
      using Suc.prems(1) next_addr uint_ge_0 [of row_len] by linarith
    have 2: "uint (addr + row_len) + int k * uint row_len \<le> uint (max_addr cfg)"
      using Suc.prems(2) next_addr by (simp add: algebra_simps)
    show ?thesis by (rule Suc.IH [OF 1 2 mem])
  qed
qed

lemma erase_rows_within_region:
  assumes "uint (base_addr cfg) \<le> uint addr"
    and "uint addr + int k * uint row_len \<le> uint (max_addr cfg)"
    and "(a, row) \<in> set (erase_rows row_len addr k)"
  shows "within_region cfg a row_len"
  using assms
proof (induction k arbitrary: addr)
  case 0
  then show ?case by simp
next
  case (Suc k)
  have fit: "uint addr + uint row_len \<le> uint (max_addr cfg)"
  proof -
    have "0 \<le> int k * uint row_len" by simp
    moreover have "int (Suc k) * uint row_len = uint row_len + int k * uint row_len"
      by (simp add: algebra_simps)
    ultimately show ?thesis using Suc.prems(2) by linarith
  qed
  have next_addr: "uint (addr + row_len) = uint addr + uint row_len"
    using fit by (rule uint_add_no_wrap)
  show ?case
  proof (cases "(a, row) = (addr, replicate (unat row_len) 0xFF)")
    case True
    then show ?thesis using Suc.prems(1) fit by (simp add: within_region_def)
  next
    case False
    then have mem: "(a, row) \<in> set (erase_rows row_len (addr + row_len) k)"
      using Suc.prems(3) by auto
    have 1: "uint (base_addr cfg) \<le> uint (addr + row_len)"
      using Suc.prems(1) next_addr uint_ge_0 [of row_len] by linarith
    have 2: "uint (addr + row_len) + int k * uint row_len \<le> uint (max_addr cfg)"
      using Suc.prems(2) next_addr by (simp add: algebra_simps)
    show ?thesis by (rule Suc.IH [OF 1 2 mem])
  qed
qed

lemma erase_rows_filled:
  "(a, row) \<in> set (erase_rows row_len addr k) \<Longrightarrow> row = replicate (unat row_len) 0xFF"
  by (induction k arbitrary: addr) auto

lemma uint_len_rows:
  fixes len B :: uint32_t
  assumes "B \<noteq> 0" "uint len mod uint B = 0"
  shows "uint len = int (unat len div unat B) * uint B"
proof -
  have "unat len = (unat len div unat B) * unat B" using assms by (rule rows_of_len)
  then have "int (unat len) = int (unat len div unat B) * int (unat B)"
    by (metis of_nat_mult)
  moreover have "uint len = int (unat len)" and "uint B = int (unat B)"
    by (rule uint_nat)+
  ultimately show ?thesis by (simp only:)
qed

lemma traced_calls_within_region:
  assumes "\<And>a row. (a, row) \<in> set rows \<Longrightarrow> within_region cfg a B"
  shows "\<exists>r hw' calls. Some (Inr (program_rows (traced W) rows (hw, []))) = Some (Inr (r, (hw', calls)))
    \<and> (\<forall>(a, row) \<in> set calls. within_region cfg a B)"
proof -
  let ?res = "program_rows (traced W) rows (hw, [])"
  have "set (snd (snd ?res)) \<subseteq> set rows" by (rule traced_log_subset)
  then have "\<forall>(a, row) \<in> set (snd (snd ?res)). within_region cfg a B"
    using assms by auto
  moreover have "?res = (fst ?res, (fst (snd ?res), snd (snd ?res)))" by simp
  ultimately show ?thesis by blast
qed

lemma accepted_rows_fit:
  assumes "base_addr cfg \<le> max_addr cfg" "B \<noteq> 0"
    and "in_bounds cfg offset len" "block_aligned B offset len"
  shows "uint (base_addr cfg) \<le> uint (base_addr cfg + offset)"
    and "uint (base_addr cfg + offset) + int (unat len div unat B) * uint B \<le> uint (max_addr cfg)"
proof -
  have w: "within_region cfg (base_addr cfg + offset) len"
    using assms(1,3) by (rule in_bounds_within_region)
  have l: "uint len = int (unat len div unat B) * uint B"
    using assms(2,4) by (intro uint_len_rows) (simp_all add: block_aligned_def)
  show "uint (base_addr cfg) \<le> uint (base_addr cfg + offset)"
    using w by (simp add: within_region_def)
  show "uint (base_addr cfg + offset) + int (unat len div unat B) * uint B \<le> uint (max_addr cfg)"
    using w l by (simp add: within_region_def)
qed

lemma length_write_rows: "length (write_rows row_len addr src k) = k"
  by (induction k arbitrary: addr src) simp_all

lemma length_erase_rows: "length (erase_rows row_len addr k) = k"
  by (induction k arbitrary: addr) simp_all

lemma write_rows_nth:
  assumes "j < k"
  shows "write_rows row_len addr src k ! j =
           (addr + of_nat j * row_len, map (\<lambda>i. src (j * unat row_len + i)) [0..<unat row_len])"
  using assms
proof (induction k arbitrary: addr src j)
  case 0
  then show ?case by simp
next
  case (Suc k)
  show ?case
  proof (cases j)
    case 0
    then show ?thesis by (simp add: row_at_def)
  next
    case (Suc j')
    then have "j' < k" using Suc.prems by simp
    then show ?thesis
      using Suc.IH [of j' "addr + row_len" "ptr_add src (unat row_len)"]
      by (simp add: Suc ptr_add_def algebra_simps)
  qed
qed

lemma take_write_rows:
  "j \<le> k \<Longrightarrow> take j (write_rows row_len addr src k) = write_rows row_len addr src j"
proof (induction k arbitrary: j addr src)
  case 0
  then show ?case by simp
next
  case (Suc k)
  show ?case
  proof (cases j)
    case 0
    then show ?thesis by simp
  next
    case (Suc j')
    then have "j' \<le> k" using Suc.prems by simp
    then show ?thesis by (simp add: Suc Suc.IH)
  qed
qed

lemma request_bytes:
  fixes len B :: uint32_t
  assumes "B \<noteq> 0" "block_aligned B offset len"
  shows "unat len div unat B * unat B = unat len" and "unat len div unat B * unat B < 2 ^ 32"
proof -
  have k: "unat len = unat len div unat B * unat B"
    using assms by (intro rows_of_len) (simp_all add: block_aligned_def)
  then show "unat len div unat B * unat B = unat len" by simp
  then show "unat len div unat B * unat B < 2 ^ 32"
    using unsigned_less [of len, where 'a = nat] by simp
qed

lemma prefix_bytes:
  fixes len B :: uint32_t
  assumes "B \<noteq> 0" "block_aligned B offset len" "n \<le> unat len div unat B"
  shows "n * unat B < 2 ^ 32"
proof -
  have "n * unat B \<le> unat len div unat B * unat B"
    using assms(3) by (rule mult_le_mono1)
  then show ?thesis using request_bytes(2) [OF assms(1,2)] by (rule le_less_trans)
qed

lemma three_rows: "unat (768 :: size_t) div unat (256 :: size_t) = Suc (Suc (Suc 0))"
  by simp

subsection \<open>The simulated flash\<close>

lemma erased_buffer_eq: "erased_buffer = (\<lambda>_. 0xFF)"
  by (simp add: erased_buffer_def)

lemma erase_rows_as_write_rows:
  "erase_rows row_len addr k = write_rows row_len addr (\<lambda>_. 0xFF) k"
proof (induction k arbitrary: addr)
  case 0
  show ?case by simp
next
  case (Suc k)
  have "row_at row_len (\<lambda>_. 0xFF) = replicate (unat row_len) 0xFF"
    by (simp add: row_at_def list_eq_iff_nth_eq)
  moreover have "ptr_add (\<lambda>_. 0xFF) (unat row_len) = (\<lambda>_. 0xFF)"
    by (simp add: ptr_add_def)
  ultimately show ?case by (simp add: Suc.IH)
qed

lemma erase_rows_as_erased_buffer:
  "erase_rows row_len addr k = write_rows row_len addr erased_buffer k"
  by (simp only: erase_rows_as_write_rows erased_buffer_eq)

lemma sim_status: "fst (Cy_Flash_WriteRow_sim addr row mem) = CY_FLASH_DRV_SUCCESS"
  by (simp add: Cy_Flash_WriteRow_sim_def)

lemma sim_store:
  "snd (Cy_Flash_WriteRow_sim addr row mem) a =
     (if unat (a - addr) < length row then row ! unat (a - addr) else mem a)"
  by (simp add: Cy_Flash_WriteRow_sim_def)

lemma program_rows_sim_step:
  "program_rows Cy_Flash_WriteRow_sim ((addr, row) # rows) mem =
     program_rows Cy_Flash_WriteRow_sim rows (snd (Cy_Flash_WriteRow_sim addr row mem))"
  using sim_status [of addr row mem] by (auto split: prod.split)

lemma unat_of_nat_small:
  assumes "n < 2 ^ 32"
  shows "unat (of_nat n :: uint32_t) = n"
  using assms by (simp add: unat_of_nat)

lemma sim_succeeds: "fst (program_rows Cy_Flash_WriteRow_sim rows mem) = 0"
proof (induction rows arbitrary: mem)
  case Nil
  show ?case by simp
next
  case (Cons x rows)
  obtain addr row where x: "x = (addr, row)" by (cases x)
  show ?case by (simp only: x program_rows_sim_step Cons.IH)
qed

lemma calls_made_sim: "calls_made Cy_Flash_WriteRow_sim rows mem = length rows"
proof (induction rows arbitrary: mem)
  case Nil
  show ?case by simp
next
  case (Cons x rows)
  obtain addr row where x: "x = (addr, row)" by (cases x)
  show ?case
    using sim_status [of addr row mem] by (auto simp add: x Cons.IH split: prod.split)
qed

lemma length_row_at: "length (row_at row_len p) = unat row_len"
  by (simp add: row_at_def)

lemma nth_row_at: "i < unat row_len \<Longrightarrow> row_at row_len p ! i = p i"
  by (simp add: row_at_def)

lemma addr_add_row:
  fixes addr row_len :: uint32_t
  shows "addr + row_len + of_nat j = addr + of_nat (unat row_len + j)"
  by simp

lemma sim_rows_frame:
  assumes "\<forall>j<k * unat row_len. a \<noteq> addr + of_nat j"
  shows "snd (program_rows Cy_Flash_WriteRow_sim (write_rows row_len addr src k) mem) a = mem a"
  using assms
proof (induction k arbitrary: addr src mem)
  case 0
  show ?case by simp
next
  case (Suc k)
  let ?mem1 = "snd (Cy_Flash_WriteRow_sim addr (row_at row_len src) mem)"
  have rest: "\<forall>j<k * unat row_len. a \<noteq> addr + row_len + of_nat j"
  proof (intro allI impI)
    fix j assume "j < k * unat row_len"
    then have "unat row_len + j < Suc k * unat row_len" by simp
    then have "a \<noteq> addr + of_nat (unat row_len + j)" using Suc.prems by blast
    then show "a \<noteq> addr + row_len + of_nat j" unfolding addr_add_row .
  qed
  have "\<not> unat (a - addr) < unat row_len"
  proof
    assume less: "unat (a - addr) < unat row_len"
    then have "unat (a - addr) < Suc k * unat row_len" by simp
    then have "a \<noteq> addr + of_nat (unat (a - addr))" using Suc.prems by blast
    then show False by simp
  qed
  then have first: "?mem1 a = mem a"
    by (simp add: sim_store length_row_at)
  have "snd (program_rows Cy_Flash_WriteRow_sim (write_rows row_len addr src (Suc k)) mem) a
      = snd (program_rows Cy_Flash_WriteRow_sim
          (write_rows row_len (addr + row_len) (ptr_add src (unat row_len)) k) ?mem1) a"
    by (simp only: write_rows.simps program_rows_sim_step)
  also have "\<dots> = ?mem1 a" by (rule Suc.IH [OF rest])
  finally show ?case using first by simp
qed

lemma sim_rows_content:
  assumes "k * unat row_len < 2 ^ 32" "i < k * unat row_len"
  shows "snd (program_rows Cy_Flash_WriteRow_sim (write_rows row_len addr src k) mem)
           (addr + of_nat i) = src i"
  using assms
proof (induction k arbitrary: addr src mem i)
  case 0
  then show ?case by simp
next
  case (Suc k)
  let ?mem1 = "snd (Cy_Flash_WriteRow_sim addr (row_at row_len src) mem)"
  have step: "snd (program_rows Cy_Flash_WriteRow_sim (write_rows row_len addr src (Suc k)) mem) a
      = snd (program_rows Cy_Flash_WriteRow_sim
          (write_rows row_len (addr + row_len) (ptr_add src (unat row_len)) k) ?mem1) a" for a
    by (simp only: write_rows.simps program_rows_sim_step)
  have total: "k * unat row_len < 2 ^ 32" using Suc.prems(1) by simp
  show ?case
  proof (cases "i < unat row_len")
    case True
    have apart: "\<forall>j<k * unat row_len. addr + of_nat i \<noteq> addr + row_len + of_nat j"
    proof (intro allI impI)
      fix j assume j: "j < k * unat row_len"
      have "unat row_len + j < 2 ^ 32" using j Suc.prems(1) by simp
      then have 1: "unat (of_nat (unat row_len + j) :: uint32_t) = unat row_len + j"
        by (rule unat_of_nat_small)
      have "i < 2 ^ 32" using True unsigned_less [of row_len, where 'a = nat] by simp
      then have 2: "unat (of_nat i :: uint32_t) = i" by (rule unat_of_nat_small)
      have "(of_nat i :: uint32_t) \<noteq> of_nat (unat row_len + j)"
        using 1 2 True by (metis add_lessD1 less_irrefl)
      then have "addr + of_nat i \<noteq> addr + of_nat (unat row_len + j)" by simp
      then show "addr + of_nat i \<noteq> addr + row_len + of_nat j" unfolding addr_add_row .
    qed
    have "i < 2 ^ 32" using True unsigned_less [of row_len, where 'a = nat] by simp
    then have "unat (of_nat i :: uint32_t) = i" by (rule unat_of_nat_small)
    then have "?mem1 (addr + of_nat i) = src i"
      using True by (simp add: sim_store length_row_at nth_row_at)
    then show ?thesis
      using sim_rows_frame [OF apart] by (simp only: step)
  next
    case False
    define i' where "i' = i - unat row_len"
    have i: "i = unat row_len + i'" using False by (simp add: i'_def)
    have less: "i' < k * unat row_len" using Suc.prems(2) i by simp
    have "snd (program_rows Cy_Flash_WriteRow_sim
             (write_rows row_len (addr + row_len) (ptr_add src (unat row_len)) k) ?mem1)
            (addr + row_len + of_nat i') = ptr_add src (unat row_len) i'"
      by (rule Suc.IH [OF total less])
    then show ?thesis
      by (simp only: step i addr_add_row [symmetric]) (simp add: ptr_add_def)
  qed
qed

lemma sim_rows_store:
  assumes "k * unat row_len < 2 ^ 32"
  shows "snd (program_rows Cy_Flash_WriteRow_sim (write_rows row_len addr src k) mem)
           = store_bytes mem addr (k * unat row_len) src"
proof (rule ext)
  fix a
  let ?mem' = "snd (program_rows Cy_Flash_WriteRow_sim (write_rows row_len addr src k) mem)"
  show "?mem' a = store_bytes mem addr (k * unat row_len) src a"
  proof (cases "unat (a - addr) < k * unat row_len")
    case True
    have "?mem' (addr + of_nat (unat (a - addr))) = src (unat (a - addr))"
      using assms True by (rule sim_rows_content)
    then show ?thesis using True by (simp add: store_bytes_def)
  next
    case False
    have "\<forall>j<k * unat row_len. a \<noteq> addr + of_nat j"
    proof (intro allI impI notI)
      fix j assume j: "j < k * unat row_len" and a: "a = addr + of_nat j"
      have "j < 2 ^ 32" using j assms by simp
      then have "unat (of_nat j :: uint32_t) = j" by (rule unat_of_nat_small)
      then have "unat (a - addr) = j" by (simp add: a)
      then show False using False j by simp
    qed
    then have "?mem' a = mem a" by (rule sim_rows_frame)
    then show ?thesis using False by (simp add: store_bytes_def)
  qed
qed

lemma sim_request_store:
  assumes "B \<noteq> 0" "block_aligned B offset len"
  shows "snd (program_rows Cy_Flash_WriteRow_sim
            (write_rows B addr src (unat len div unat B)) mem)
         = store_bytes mem addr (unat len) src"
  using sim_rows_store [OF request_bytes(2) [OF assms], of addr src mem]
  by (simp only: request_bytes(1) [OF assms])

lemma sim_read_back:
  assumes "B \<noteq> 0" "len \<noteq> 0" "in_bounds cfg offset len" "block_aligned B offset len"
  shows "fst (flash_ifx_read cfg
              (snd (program_rows Cy_Flash_WriteRow_sim
                 (write_rows B (base_addr cfg + offset) src (unat len div unat B)) mem))
              offset out len) = 0"
    and "\<forall>i<unat len. snd (flash_ifx_read cfg
              (snd (program_rows Cy_Flash_WriteRow_sim
                 (write_rows B (base_addr cfg + offset) src (unat len div unat B)) mem))
              offset out len) i = src i"
proof -
  let ?k = "unat len div unat B"
  let ?mem' = "snd (program_rows Cy_Flash_WriteRow_sim
                 (write_rows B (base_addr cfg + offset) src ?k) mem)"
  have rd: "flash_ifx_read cfg ?mem' offset out len =
      (0, memcpy out (flash_at ?mem' (base_addr cfg + offset)) (unat len))"
    using assms(2,3) by (simp add: flash_ifx_read_eq)
  show "fst (flash_ifx_read cfg ?mem' offset out len) = 0" by (simp add: rd)
  have k: "unat len = ?k * unat B"
    using assms(1,4) by (intro rows_of_len) (simp_all add: block_aligned_def)
  have total: "?k * unat B < 2 ^ 32"
    using unsigned_less [of len, where 'a = nat] k by simp
  show "\<forall>i<unat len. snd (flash_ifx_read cfg ?mem' offset out len) i = src i"
  proof (intro allI impI)
    fix i assume i: "i < unat len"
    then have "i < ?k * unat B" using k by simp
    then have "?mem' (base_addr cfg + offset + of_nat i) = src i"
      using total by (intro sim_rows_content)
    then show "snd (flash_ifx_read cfg ?mem' offset out len) i = src i"
      using i by (simp add: rd memcpy_def flash_at_def)
  qed
qed

lemma failing_at_step:
  "failing_at N W addr row (hw, c) =
     (if Suc c = N then (CY_FLASH_DRV_ERROR 1, (hw, Suc c))
      else (fst (W addr row hw), (snd (W addr row hw), Suc c)))"
  by (simp add: failing_at_def split: prod.split)

lemma failing_sim_rows:
  assumes "c < N" "N \<le> c + length rows"
  shows "program_rows (failing_at N Cy_Flash_WriteRow_sim) rows (mem, c) =
     (- EIO, (snd (program_rows Cy_Flash_WriteRow_sim (take (N - Suc c) rows) mem), N))"
  using assms
proof (induction rows arbitrary: mem c)
  case Nil
  then show ?case by simp
next
  case (Cons x rows)
  obtain addr row where x: "x = (addr, row)" by (cases x)
  show ?case
  proof (cases "Suc c = N")
    case True
    then show ?thesis by (simp add: x failing_at_step)
  next
    case False
    then have 1: "Suc c < N" and 2: "N \<le> Suc c + length rows"
      using Cons.prems by simp_all
    obtain d where d: "N - Suc c = Suc d" using 1 by (cases "N - Suc c") simp_all
    then have d': "N - Suc (Suc c) = d" by simp
    let ?mem1 = "snd (Cy_Flash_WriteRow_sim addr row mem)"
    have "program_rows (failing_at N Cy_Flash_WriteRow_sim) (x # rows) (mem, c)
        = program_rows (failing_at N Cy_Flash_WriteRow_sim) rows (?mem1, Suc c)"
      using False by (simp add: x failing_at_step sim_status)
    also have "\<dots> = (- EIO, (snd (program_rows Cy_Flash_WriteRow_sim (take d rows) ?mem1), N))"
      using Cons.IH [OF 1 2, of ?mem1] by (simp only: d')
    also have "program_rows Cy_Flash_WriteRow_sim (take d rows) ?mem1
        = program_rows Cy_Flash_WriteRow_sim (take (N - Suc c) (x # rows)) mem"
      by (simp only: d x take_Suc_Cons program_rows_sim_step)
    finally show ?thesis .
  qed
qed

lemma failing_sim_request:
  assumes "B \<noteq> 0" "block_aligned B offset len" "1 \<le> N" "N \<le> unat len div unat B"
  shows "program_rows (failing_at N Cy_Flash_WriteRow_sim)
           (write_rows B addr src (unat len div unat B)) (mem, 0)
         = (- EIO, (store_bytes mem addr ((N - 1) * unat B) src, N))"
proof -
  let ?k = "unat len div unat B"
  have le: "N - 1 \<le> ?k" using assms(4) by simp
  have "program_rows (failing_at N Cy_Flash_WriteRow_sim) (write_rows B addr src ?k) (mem, 0)
      = (- EIO, (snd (program_rows Cy_Flash_WriteRow_sim
                   (take (N - Suc 0) (write_rows B addr src ?k)) mem), N))"
    using assms(3,4) by (intro failing_sim_rows) (simp_all add: length_write_rows)
  also have "take (N - Suc 0) (write_rows B addr src ?k) = write_rows B addr src (N - 1)"
    using le by (simp add: take_write_rows)
  also have "snd (program_rows Cy_Flash_WriteRow_sim (write_rows B addr src (N - 1)) mem)
      = store_bytes mem addr ((N - 1) * unat B) src"
    using prefix_bytes [OF assms(1,2) le] by (rule sim_rows_store)
  finally show ?thesis .
qed

subsection \<open>The alignment of the source pointer\<close>

lemma and3_take_bit: "a AND 0x3 = take_bit 2 a" for a :: uint32_t
  by (simp add: take_bit_eq_mask mask_eq_exp_minus_1)

lemma take_bit_2_add_mult4: "take_bit 2 (a + 4 * x) = take_bit 2 a" for a x :: uint32_t
proof -
  have dvd: "(4 :: nat) dvd 2 ^ 32" by simp
  have "unat (4 * x) mod 4 = (4 * unat x) mod 2 ^ 32 mod 4"
    by (simp add: unat_word_ariths)
  also have "\<dots> = (4 * unat x) mod 4" using dvd by (rule mod_mod_cancel)
  finally have zero: "unat (4 * x) mod 4 = 0" by simp
  have "unat (a + 4 * x) mod 4 = (unat a + unat (4 * x)) mod 2 ^ 32 mod 4"
    by (simp add: unat_word_ariths)
  also have "\<dots> = (unat a + unat (4 * x)) mod 4" using dvd by (rule mod_mod_cancel)
  also have "\<dots> = (unat a mod 4 + unat (4 * x) mod 4) mod 4" by (rule mod_add_eq [symmetric])
  also have "\<dots> = unat a mod 4" by (simp add: zero)
  finally have "unat ((a + 4 * x) mod 4) = unat (a mod 4)" by (simp add: unat_mod)
  then have "(a + 4 * x) mod 4 = a mod 4" by (simp only: word_unat_eq_iff)
  then show ?thesis by (simp add: take_bit_eq_mod)
qed

lemma alignment_invariant:
  fixes p row_len :: uint32_t
  assumes "4 dvd unat row_len"
  shows "(p + of_nat j * row_len) AND 0x3 = p AND 0x3"
proof -
  obtain m where m: "unat row_len = 4 * m" using assms by (elim dvdE)
  have "row_len = of_nat (unat row_len)" by simp
  also have "\<dots> = 4 * of_nat m" by (simp only: m) simp
  finally have "of_nat j * row_len = 4 * (of_nat j * of_nat m)" by simp
  then show ?thesis by (simp only: and3_take_bit take_bit_2_add_mult4)
qed

section \<open>The claims\<close>

subsection \<open>C1: region containment\<close>

text \<open>
  Claim C1. Let \<open>base_addr \<le> max_addr\<close>. A request of non-zero length that passes the
  validation (the read returns 0; the write or the erase does not return \<open>-EINVAL\<close>)
  satisfies \<open>base_addr \<le> base_addr + offset\<close> and
  \<open>base_addr + offset + length \<le> max_addr\<close>, where the sums do not wrap around. And
  whatever the request and whatever the primitive does, \<open>flash_ifx_write\<close> and
  \<open>flash_ifx_erase\<close> return, and every call they have made to the primitive has an
  address \<open>addr\<close> with \<open>base_addr \<le> addr\<close> and \<open>addr + row_len \<le> max_addr\<close>. The
  block sizes are non-zero multiples of 4, as the driver assumes.
\<close>

theorem region_containment:
  assumes "base_addr cfg \<le> max_addr cfg"
  shows "(len \<noteq> 0 \<and> fst (flash_ifx_read cfg mem offset out len) = 0 \<longrightarrow>
            within_region cfg (base_addr cfg + offset) len)
    \<and> (len \<noteq> 0 \<and> write_block_size cfg \<noteq> 0
          \<and> flash_ifx_write W cfg stack offset data_addr data len hw \<noteq> Some (Inr (- EINVAL, hw)) \<longrightarrow>
            within_region cfg (base_addr cfg + offset) len)
    \<and> (len \<noteq> 0 \<and> erase_block_size cfg \<noteq> 0
          \<and> flash_ifx_erase W cfg stack offset len hw \<noteq> Some (Inr (- EINVAL, hw)) \<longrightarrow>
            within_region cfg (base_addr cfg + offset) len)
    \<and> (write_block_size cfg \<noteq> 0 \<and> 4 dvd unat (write_block_size cfg) \<longrightarrow>
          (\<exists>r hw' calls.
             flash_ifx_write (traced W) cfg stack offset data_addr data len (hw, [])
               = Some (Inr (r, (hw', calls)))
             \<and> (\<forall>(addr, row) \<in> set calls. within_region cfg addr (write_block_size cfg))))
    \<and> (erase_block_size cfg \<noteq> 0 \<and> 4 dvd unat (erase_block_size cfg) \<longrightarrow>
          (\<exists>r hw' calls.
             flash_ifx_erase (traced W) cfg stack offset len (hw, [])
               = Some (Inr (r, (hw', calls)))
             \<and> (\<forall>(addr, row) \<in> set calls. within_region cfg addr (erase_block_size cfg))))"
proof (intro conjI impI)
  assume "len \<noteq> 0 \<and> fst (flash_ifx_read cfg mem offset out len) = 0"
  then have "in_bounds cfg offset len"
    by (simp add: flash_ifx_read_eq EINVAL_def split: if_splits)
  then show "within_region cfg (base_addr cfg + offset) len"
    using assms by (intro in_bounds_within_region)
next
  assume a: "len \<noteq> 0 \<and> write_block_size cfg \<noteq> 0
    \<and> flash_ifx_write W cfg stack offset data_addr data len hw \<noteq> Some (Inr (- EINVAL, hw))"
  then have "in_bounds cfg offset len"
    using flash_ifx_write_rejects [of len cfg offset W stack data_addr data hw] by blast
  then show "within_region cfg (base_addr cfg + offset) len"
    using assms by (intro in_bounds_within_region)
next
  assume a: "len \<noteq> 0 \<and> erase_block_size cfg \<noteq> 0
    \<and> flash_ifx_erase W cfg stack offset len hw \<noteq> Some (Inr (- EINVAL, hw))"
  then have "in_bounds cfg offset len"
    using flash_ifx_erase_rejects [of len cfg offset W stack hw] by blast
  then show "within_region cfg (base_addr cfg + offset) len"
    using assms by (intro in_bounds_within_region)
next
  assume c: "write_block_size cfg \<noteq> 0 \<and> 4 dvd unat (write_block_size cfg)"
  let ?B = "write_block_size cfg"
  let ?rows = "write_rows ?B (base_addr cfg + offset) data (unat len div unat ?B)"
  show "\<exists>r hw' calls.
      flash_ifx_write (traced W) cfg stack offset data_addr data len (hw, [])
        = Some (Inr (r, (hw', calls)))
      \<and> (\<forall>(addr, row) \<in> set calls. within_region cfg addr ?B)"
  proof (cases "len \<noteq> 0 \<and> in_bounds cfg offset len \<and> block_aligned ?B offset len")
    case True
    have fit: "within_region cfg a ?B" if "(a, row) \<in> set ?rows" for a row
      using accepted_rows_fit [OF assms, of ?B offset len] c True that
      by (intro write_rows_within_region [of cfg "base_addr cfg + offset" _ ?B a row data]) simp_all
    have "flash_ifx_write (traced W) cfg stack offset data_addr data len (hw, [])
        = Some (Inr (program_rows (traced W) ?rows (hw, [])))"
      using c True by (intro flash_ifx_write_accepts) simp_all
    then show ?thesis
      using traced_calls_within_region [of ?rows cfg ?B W hw] fit by simp
  next
    case False
    then have "flash_ifx_write (traced W) cfg stack offset data_addr data len (hw, [])
        = Some (Inr (0, (hw, []))) \<or>
      flash_ifx_write (traced W) cfg stack offset data_addr data len (hw, [])
        = Some (Inr (- EINVAL, (hw, [])))"
      using c by (auto simp add: flash_ifx_write_eq)
    then show ?thesis by auto
  qed
next
  assume c: "erase_block_size cfg \<noteq> 0 \<and> 4 dvd unat (erase_block_size cfg)"
  let ?B = "erase_block_size cfg"
  let ?rows = "erase_rows ?B (base_addr cfg + offset) (unat len div unat ?B)"
  show "\<exists>r hw' calls.
      flash_ifx_erase (traced W) cfg stack offset len (hw, [])
        = Some (Inr (r, (hw', calls)))
      \<and> (\<forall>(addr, row) \<in> set calls. within_region cfg addr ?B)"
  proof (cases "len \<noteq> 0 \<and> in_bounds cfg offset len \<and> block_aligned ?B offset len")
    case True
    have fit: "within_region cfg a ?B" if "(a, row) \<in> set ?rows" for a row
      using accepted_rows_fit [OF assms, of ?B offset len] c True that
      by (intro erase_rows_within_region [of cfg "base_addr cfg + offset" _ ?B a row]) simp_all
    have "flash_ifx_erase (traced W) cfg stack offset len (hw, [])
        = Some (Inr (program_rows (traced W) ?rows (hw, [])))"
      using c True by (intro flash_ifx_erase_accepts) simp_all
    then show ?thesis
      using traced_calls_within_region [of ?rows cfg ?B W hw] fit by simp
  next
    case False
    then have "flash_ifx_erase (traced W) cfg stack offset len (hw, [])
        = Some (Inr (0, (hw, []))) \<or>
      flash_ifx_erase (traced W) cfg stack offset len (hw, [])
        = Some (Inr (- EINVAL, (hw, [])))"
      using c by (auto simp add: flash_ifx_erase_eq)
    then show ?thesis by auto
  qed
qed

text \<open>
  The theorem at the last row of the concrete device, with a primitive that fails.
\<close>

theorem region_containment_witness:
  "base_addr scenario_cfg \<le> max_addr scenario_cfg
   \<and> (256 :: size_t) \<noteq> 0 \<and> fst (flash_ifx_read scenario_cfg erased_flash 0xF00 bytes_AA 256) = 0
   \<and> write_block_size scenario_cfg \<noteq> 0
   \<and> flash_ifx_write Cy_Flash_WriteRow_broken scenario_cfg bytes_AA 0xF00 0 bytes_AA 256 ()
        \<noteq> Some (Inr (- EINVAL, ()))
   \<and> erase_block_size scenario_cfg \<noteq> 0
   \<and> flash_ifx_erase Cy_Flash_WriteRow_broken scenario_cfg bytes_AA 0xF00 256 ()
        \<noteq> Some (Inr (- EINVAL, ()))
   \<and> 4 dvd unat (write_block_size scenario_cfg) \<and> 4 dvd unat (erase_block_size scenario_cfg)
   \<and> within_region scenario_cfg (base_addr scenario_cfg + 0xF00) 256
   \<and> flash_ifx_write (traced Cy_Flash_WriteRow_broken) scenario_cfg bytes_AA 0xF00 0 bytes_AA
        256 ((), []) = Some (Inr (- EIO, ((), [(0x1F00, row_at 256 bytes_AA)])))
   \<and> within_region scenario_cfg 0x1F00 (write_block_size scenario_cfg)
   \<and> flash_ifx_erase (traced Cy_Flash_WriteRow_broken) scenario_cfg bytes_AA 0xF00 256
        ((), []) = Some (Inr (- EIO, ((), [(0x1F00, replicate (unat (256 :: size_t)) 0xFF)])))
   \<and> within_region scenario_cfg 0x1F00 (erase_block_size scenario_cfg)"
proof -
  have h: "base_addr scenario_cfg \<le> max_addr scenario_cfg" by (simp add: scenario_cfg_def)
  have r: "(256 :: size_t) \<noteq> 0 \<and> fst (flash_ifx_read scenario_cfg erased_flash 0xF00 bytes_AA 256) = 0"
    by (simp add: flash_ifx_read_def scenario_cfg_def Let_def word_sless_alt)
  have w: "write_block_size scenario_cfg \<noteq> 0
    \<and> flash_ifx_write Cy_Flash_WriteRow_broken scenario_cfg bytes_AA 0xF00 0 bytes_AA 256 ()
        \<noteq> Some (Inr (- EINVAL, ()))"
    by (simp add: flash_ifx_write_def scenario_cfg_def Let_def write_loop_direct.simps
        Cy_Flash_WriteRow_broken_def EINVAL_def EIO_def word_sless_alt)
  have e: "erase_block_size scenario_cfg \<noteq> 0
    \<and> flash_ifx_erase Cy_Flash_WriteRow_broken scenario_cfg bytes_AA 0xF00 256 ()
        \<noteq> Some (Inr (- EINVAL, ()))"
    by (simp add: flash_ifx_erase_def scenario_cfg_def Let_def erase_loop.simps
        sizeof_row_buf_def Cy_Flash_WriteRow_broken_def EINVAL_def EIO_def word_sless_alt)
  have d: "write_block_size scenario_cfg \<noteq> 0 \<and> 4 dvd unat (write_block_size scenario_cfg)"
    "erase_block_size scenario_cfg \<noteq> 0 \<and> 4 dvd unat (erase_block_size scenario_cfg)"
    by (simp_all add: scenario_cfg_def)
  have tw: "flash_ifx_write (traced Cy_Flash_WriteRow_broken) scenario_cfg bytes_AA 0xF00 0
      bytes_AA 256 ((), []) = Some (Inr (- EIO, ((), [(0x1F00, row_at 256 bytes_AA)])))"
    by (simp add: flash_ifx_write_def scenario_cfg_def Let_def write_loop_direct.simps
        traced_def Cy_Flash_WriteRow_broken_def word_sless_alt)
  have te: "flash_ifx_erase (traced Cy_Flash_WriteRow_broken) scenario_cfg bytes_AA 0xF00 256
      ((), []) = Some (Inr (- EIO, ((), [(0x1F00, replicate (unat (256 :: size_t)) 0xFF)])))"
    using row_at_memset [where row_len = 256 and buf = bytes_AA and c = "0xFF"]
    by (simp add: flash_ifx_erase_def scenario_cfg_def Let_def erase_loop.simps
        sizeof_row_buf_def traced_def Cy_Flash_WriteRow_broken_def word_sless_alt)
  note t = region_containment [OF h, where len = 256 and mem = erased_flash and offset = "0xF00"
        and out = bytes_AA and W = Cy_Flash_WriteRow_broken and stack = bytes_AA
        and data_addr = 0 and data = bytes_AA and hw = "()"]
  have c1: "within_region scenario_cfg (base_addr scenario_cfg + 0xF00) 256"
    using t r by blast
  have c2: "within_region scenario_cfg 0x1F00 (write_block_size scenario_cfg)"
    using t d(1) tw by auto
  have c3: "within_region scenario_cfg 0x1F00 (erase_block_size scenario_cfg)"
    using t d(2) te by auto
  show ?thesis using h r w e d tw te c1 c2 c3 by blast
qed

subsection \<open>C2: out-of-range rejection\<close>

text \<open>
  Claim C2. With \<open>S = max_addr - base_addr\<close>, every read, write and erase of length at
  least 1 with \<open>offset + length > S\<close> returns \<open>-EINVAL\<close> and leaves the hardware and the
  destination buffer as they are. This holds for every 32-bit offset, whether it is read
  as the signed \<open>off_t\<close> it is or as an unsigned number, and so also where
  \<open>base_addr + offset + length\<close> would exceed \<open>2^32\<close>. Write and erase divide by their
  block size first, which is taken to be non-zero.
\<close>

theorem out_of_range_rejection:
  assumes "len \<noteq> 0"
    and "uint (max_addr cfg - base_addr cfg) < sint offset + uint len
      \<or> uint (max_addr cfg - base_addr cfg) < uint offset + uint len"
  shows "flash_ifx_read cfg mem offset out len = (- EINVAL, out)
    \<and> (write_block_size cfg \<noteq> 0 \<longrightarrow>
          flash_ifx_write W cfg stack offset data_addr data len hw = Some (Inr (- EINVAL, hw)))
    \<and> (erase_block_size cfg \<noteq> 0 \<longrightarrow>
          flash_ifx_erase W cfg stack offset len hw = Some (Inr (- EINVAL, hw)))"
proof -
  have out: "\<not> in_bounds cfg offset len"
    using assms(2) by (rule beyond_span_not_in_bounds)
  have "flash_ifx_read cfg mem offset out len = (- EINVAL, out)"
    using assms(1) out by (simp add: flash_ifx_read_eq)
  moreover have "flash_ifx_write W cfg stack offset data_addr data len hw = Some (Inr (- EINVAL, hw))"
    if "write_block_size cfg \<noteq> 0"
    using assms(1) that out by (intro flash_ifx_write_rejects) simp_all
  moreover have "flash_ifx_erase W cfg stack offset len hw = Some (Inr (- EINVAL, hw))"
    if "erase_block_size cfg \<noteq> 0"
    using assms(1) that out by (intro flash_ifx_erase_rejects) simp_all
  ultimately show ?thesis by blast
qed

text \<open>
  The boundary case \<open>offset = S\<close>, \<open>length = 1\<close> on the concrete device.
\<close>

theorem out_of_range_rejection_witness:
  "(1 :: size_t) \<noteq> 0
   \<and> (uint (max_addr scenario_cfg - base_addr scenario_cfg) < sint (0x1000 :: off_t) + uint (1 :: size_t)
      \<or> uint (max_addr scenario_cfg - base_addr scenario_cfg) < uint (0x1000 :: off_t) + uint (1 :: size_t))
   \<and> write_block_size scenario_cfg \<noteq> 0 \<and> erase_block_size scenario_cfg \<noteq> 0
   \<and> flash_ifx_read scenario_cfg erased_flash 0x1000 bytes_AA 1 = (- EINVAL, bytes_AA)
   \<and> flash_ifx_write Cy_Flash_WriteRow_sim scenario_cfg bytes_AA 0x1000 0 bytes_AA 1 erased_flash
        = Some (Inr (- EINVAL, erased_flash))
   \<and> flash_ifx_erase Cy_Flash_WriteRow_sim scenario_cfg bytes_AA 0x1000 1 erased_flash
        = Some (Inr (- EINVAL, erased_flash))"
proof -
  have h1: "(1 :: size_t) \<noteq> 0" by simp
  have h2: "uint (max_addr scenario_cfg - base_addr scenario_cfg) < sint (0x1000 :: off_t) + uint (1 :: size_t)
      \<or> uint (max_addr scenario_cfg - base_addr scenario_cfg) < uint (0x1000 :: off_t) + uint (1 :: size_t)"
    by (simp add: scenario_cfg_def)
  have h3: "write_block_size scenario_cfg \<noteq> 0" "erase_block_size scenario_cfg \<noteq> 0"
    by (simp_all add: scenario_cfg_def)
  show ?thesis
    using h1 h2 h3
      out_of_range_rejection [OF h1 h2, where W = Cy_Flash_WriteRow_sim
        and stack = bytes_AA and data_addr = 0 and data = bytes_AA
        and hw = erased_flash and mem = erased_flash and out = bytes_AA]
    by blast
qed

subsection \<open>C3: alignment enforcement\<close>

text \<open>
  Claim C3, amended. For a request of length at least 1: a write whose offset or length is
  not a multiple of \<open>write_block_size\<close> returns \<open>-EINVAL\<close>, and so does an erase whose
  offset or length is not a multiple of \<open>erase_block_size\<close>, whether the request is in
  bounds or not; a read that is in bounds succeeds and copies the bytes, whatever its
  alignment. (The block sizes are non-zero.) As the claim is written it also covers
  requests of length zero, and those succeed at any offset.
\<close>

theorem alignment_enforcement:
  assumes "len \<noteq> 0"
  shows "(write_block_size cfg \<noteq> 0 \<and> \<not> block_aligned (write_block_size cfg) offset len \<longrightarrow>
            flash_ifx_write W cfg stack offset data_addr data len hw = Some (Inr (- EINVAL, hw)))
    \<and> (erase_block_size cfg \<noteq> 0 \<and> \<not> block_aligned (erase_block_size cfg) offset len \<longrightarrow>
            flash_ifx_erase W cfg stack offset len hw = Some (Inr (- EINVAL, hw)))
    \<and> (in_bounds cfg offset len \<longrightarrow>
            flash_ifx_read cfg mem offset out len =
              (0, memcpy out (flash_at mem (base_addr cfg + offset)) (unat len)))"
proof (intro conjI impI)
  assume "write_block_size cfg \<noteq> 0 \<and> \<not> block_aligned (write_block_size cfg) offset len"
  then show "flash_ifx_write W cfg stack offset data_addr data len hw = Some (Inr (- EINVAL, hw))"
    using assms by (intro flash_ifx_write_rejects) simp_all
next
  assume "erase_block_size cfg \<noteq> 0 \<and> \<not> block_aligned (erase_block_size cfg) offset len"
  then show "flash_ifx_erase W cfg stack offset len hw = Some (Inr (- EINVAL, hw))"
    using assms by (intro flash_ifx_erase_rejects) simp_all
next
  assume "in_bounds cfg offset len"
  then show "flash_ifx_read cfg mem offset out len =
      (0, memcpy out (flash_at mem (base_addr cfg + offset)) (unat len))"
    using assms by (simp add: flash_ifx_read_eq)
qed

text \<open>
  The request \<open>offset = 100\<close>, \<open>length = 256\<close> on the concrete device: in bounds and
  not aligned.
\<close>

theorem alignment_enforcement_witness:
  "(256 :: size_t) \<noteq> 0
   \<and> write_block_size scenario_cfg \<noteq> 0 \<and> \<not> block_aligned (write_block_size scenario_cfg) 100 256
   \<and> erase_block_size scenario_cfg \<noteq> 0 \<and> \<not> block_aligned (erase_block_size scenario_cfg) 100 256
   \<and> in_bounds scenario_cfg 100 256
   \<and> flash_ifx_write Cy_Flash_WriteRow_sim scenario_cfg bytes_AA 100 0 bytes_AA 256 erased_flash
        = Some (Inr (- EINVAL, erased_flash))
   \<and> flash_ifx_erase Cy_Flash_WriteRow_sim scenario_cfg bytes_AA 100 256 erased_flash
        = Some (Inr (- EINVAL, erased_flash))
   \<and> flash_ifx_read scenario_cfg erased_flash 100 bytes_AA 256
        = (0, memcpy bytes_AA (flash_at erased_flash (base_addr scenario_cfg + 100)) (unat (256 :: size_t)))"
proof -
  have h: "(256 :: size_t) \<noteq> 0" by simp
  have w: "write_block_size scenario_cfg \<noteq> 0 \<and> \<not> block_aligned (write_block_size scenario_cfg) 100 256"
    by (simp add: scenario_cfg_def block_aligned_def)
  have e: "erase_block_size scenario_cfg \<noteq> 0 \<and> \<not> block_aligned (erase_block_size scenario_cfg) 100 256"
    by (simp add: scenario_cfg_def block_aligned_def)
  have r: "in_bounds scenario_cfg 100 256"
    by (simp add: scenario_cfg_def in_bounds_def)
  show ?thesis
    using h w e r
      alignment_enforcement [OF h, where W = Cy_Flash_WriteRow_sim and cfg = scenario_cfg
        and offset = 100 and stack = bytes_AA and data_addr = 0 and data = bytes_AA
        and hw = erased_flash and mem = erased_flash and out = bytes_AA]
    by blast
qed

text \<open>
  The claim as written fails for a write of length zero at the offset 1, which is no
  multiple of 256: it returns 0.
\<close>

theorem alignment_zero_length_counterexample:
  "sint (1 :: off_t) mod uint (write_block_size scenario_cfg) \<noteq> 0
   \<and> returned (flash_ifx_write Cy_Flash_WriteRow_sim scenario_cfg bytes_AA 1 0 bytes_AA 0
        erased_flash) = Some 0
   \<and> returned (flash_ifx_write Cy_Flash_WriteRow_sim scenario_cfg bytes_AA 1 0 bytes_AA 0
        erased_flash) \<noteq> Some (- EINVAL)"
  by (simp add: flash_ifx_write_def returned_def scenario_cfg_def EINVAL_def)

subsection \<open>C4: negative-offset rejection\<close>

text \<open>
  Claim C4, amended. For every negative offset and every length of at least 1, with any
  buffer, read, write and erase return \<open>-EINVAL\<close> and change nothing. (The erase
  divides by \<open>erase_block_size\<close> before it looks at the sign, so that its block size is
  taken to be non-zero.) As the claim is written it covers any length; with length zero
  the calls return 0.
\<close>

theorem negative_offset_rejection:
  assumes "offset <s 0" and "len \<noteq> 0"
  shows "flash_ifx_write W cfg stack offset data_addr data len hw = Some (Inr (- EINVAL, hw))
    \<and> flash_ifx_read cfg mem offset out len = (- EINVAL, out)
    \<and> (erase_block_size cfg \<noteq> 0 \<longrightarrow>
         flash_ifx_erase W cfg stack offset len hw = Some (Inr (- EINVAL, hw)))"
  using assms
  by (simp add: flash_ifx_write_def flash_ifx_read_def flash_ifx_erase_def Let_def)

theorem negative_offset_rejection_witness:
  "(- 256 :: off_t) <s 0 \<and> (256 :: size_t) \<noteq> 0 \<and> erase_block_size scenario_cfg \<noteq> 0
   \<and> flash_ifx_write Cy_Flash_WriteRow_sim scenario_cfg bytes_AA (- 256) 0 bytes_AA 256
        erased_flash = Some (Inr (- EINVAL, erased_flash))
   \<and> flash_ifx_read scenario_cfg erased_flash (- 256) bytes_AA 256 = (- EINVAL, bytes_AA)
   \<and> flash_ifx_erase Cy_Flash_WriteRow_sim scenario_cfg bytes_AA (- 256) 256 erased_flash
        = Some (Inr (- EINVAL, erased_flash))"
proof -
  have h1: "(- 256 :: off_t) <s 0" by (simp add: word_sless_alt)
  have h2: "(256 :: size_t) \<noteq> 0" by simp
  have h3: "erase_block_size scenario_cfg \<noteq> 0" by (simp add: scenario_cfg_def)
  show ?thesis
    using h1 h2 h3
      negative_offset_rejection [OF h1 h2, where W = Cy_Flash_WriteRow_sim
        and cfg = scenario_cfg and stack = bytes_AA and data_addr = 0 and data = bytes_AA
        and hw = erased_flash and mem = erased_flash and out = bytes_AA]
    by blast
qed

text \<open>
  The claim as written fails for a read of length zero at the offset \<open>-1\<close>: it
  returns 0.
\<close>

theorem negative_offset_zero_length_counterexample:
  "(- 1 :: off_t) <s 0
   \<and> fst (flash_ifx_read scenario_cfg erased_flash (- 1) bytes_AA 0) = 0
   \<and> fst (flash_ifx_read scenario_cfg erased_flash (- 1) bytes_AA 0) \<noteq> - EINVAL"
  by (simp add: flash_ifx_read_def EINVAL_def word_sless_alt)

subsection \<open>C5: zero-length requests\<close>

text \<open>
  Claim C5. With a length of zero, read, write and erase return 0 at every offset and for
  every configuration, the hardware state and the destination buffer are what they were,
  and no call to the primitive is made: the statement holds for every primitive, so also
  for one that records its calls.
\<close>

theorem zero_length_no_op:
  "flash_ifx_write W cfg stack offset data_addr data 0 hw = Some (Inr (0, hw))
   \<and> flash_ifx_read cfg mem offset out 0 = (0, out)
   \<and> flash_ifx_erase W cfg stack offset 0 hw = Some (Inr (0, hw))"
  by (simp add: flash_ifx_write_def flash_ifx_read_def flash_ifx_erase_def)

text \<open>
  At the negative offset \<open>-1\<close>, with a recording primitive: the record stays empty.
\<close>

theorem zero_length_no_op_witness:
  "flash_ifx_write (traced Cy_Flash_WriteRow_sim) scenario_cfg bytes_AA (- 1) 1 bytes_AA 0
       (erased_flash, []) = Some (Inr (0, (erased_flash, [])))
   \<and> flash_ifx_read scenario_cfg erased_flash (- 1) bytes_AA 0 = (0, bytes_AA)
   \<and> flash_ifx_erase (traced Cy_Flash_WriteRow_sim) scenario_cfg bytes_AA (- 1) 0
       (erased_flash, []) = Some (Inr (0, (erased_flash, [])))"
  by (rule zero_length_no_op)

subsection \<open>C6: write/read round trip\<close>

text \<open>
  Claim C6. With the faithful simulator as primitive, a write of \<open>len \<ge> 1\<close> bytes that is
  in bounds and block-aligned returns 0 and leaves the flash with exactly the \<open>len\<close>
  source bytes stored from \<open>base_addr + offset\<close> on; the read of the same range then
  returns 0 and the bytes it delivers are the bytes written. The source may be aligned or
  not: \<open>data_addr\<close> is arbitrary.
\<close>

theorem write_read_round_trip:
  assumes "write_block_size cfg \<noteq> 0" and "4 dvd unat (write_block_size cfg)"
    and "len \<noteq> 0" and "in_bounds cfg offset len"
    and "block_aligned (write_block_size cfg) offset len"
  shows "flash_ifx_write Cy_Flash_WriteRow_sim cfg stack offset data_addr data len mem
        = Some (Inr (0, store_bytes mem (base_addr cfg + offset) (unat len) data))
    \<and> fst (flash_ifx_read cfg (store_bytes mem (base_addr cfg + offset) (unat len) data)
             offset out len) = 0
    \<and> (\<forall>i<unat len.
          snd (flash_ifx_read cfg (store_bytes mem (base_addr cfg + offset) (unat len) data)
                 offset out len) i = data i)"
proof -
  let ?rows = "write_rows (write_block_size cfg) (base_addr cfg + offset) data
                 (unat len div unat (write_block_size cfg))"
  let ?mem' = "snd (program_rows Cy_Flash_WriteRow_sim ?rows mem)"
  have mem': "?mem' = store_bytes mem (base_addr cfg + offset) (unat len) data"
    using assms(1,5) by (rule sim_request_store)
  have "flash_ifx_write Cy_Flash_WriteRow_sim cfg stack offset data_addr data len mem
      = Some (Inr (program_rows Cy_Flash_WriteRow_sim ?rows mem))"
    using assms by (intro flash_ifx_write_accepts) simp_all
  moreover have "program_rows Cy_Flash_WriteRow_sim ?rows mem = (0, ?mem')"
    using sim_succeeds [of ?rows mem] by (simp add: prod_eq_iff)
  ultimately have "flash_ifx_write Cy_Flash_WriteRow_sim cfg stack offset data_addr data len mem
      = Some (Inr (0, ?mem'))" by simp
  then show ?thesis
    using sim_read_back [OF assms(1,3,4,5), of data mem out]
    by (simp only: mem')
qed

theorem write_read_round_trip_witness:
  "write_block_size scenario_cfg \<noteq> 0 \<and> 4 dvd unat (write_block_size scenario_cfg)
   \<and> (256 :: size_t) \<noteq> 0 \<and> in_bounds scenario_cfg 0 256
   \<and> block_aligned (write_block_size scenario_cfg) 0 256
   \<and> flash_ifx_write Cy_Flash_WriteRow_sim scenario_cfg erased_buffer 0 0x20000001 bytes_AA
        256 erased_flash
        = Some (Inr (0, store_bytes erased_flash (base_addr scenario_cfg + 0)
                          (unat (256 :: size_t)) bytes_AA))
   \<and> fst (flash_ifx_read scenario_cfg
             (store_bytes erased_flash (base_addr scenario_cfg + 0) (unat (256 :: size_t)) bytes_AA)
             0 erased_buffer 256) = 0
   \<and> snd (flash_ifx_read scenario_cfg
             (store_bytes erased_flash (base_addr scenario_cfg + 0) (unat (256 :: size_t)) bytes_AA)
             0 erased_buffer 256) 255 = bytes_AA 255"
proof -
  have h1: "write_block_size scenario_cfg \<noteq> 0" by (simp add: scenario_cfg_def)
  have h2: "4 dvd unat (write_block_size scenario_cfg)" by (simp add: scenario_cfg_def)
  have h3: "(256 :: size_t) \<noteq> 0" by simp
  have h4: "in_bounds scenario_cfg 0 256" by (simp add: in_bounds_def scenario_cfg_def)
  have h5: "block_aligned (write_block_size scenario_cfg) 0 256"
    by (simp add: block_aligned_def scenario_cfg_def)
  have i: "255 < unat (256 :: size_t)" by simp
  show ?thesis
    using h1 h2 h3 h4 h5 i
      write_read_round_trip [OF h1 h2 h3 h4 h5, where stack = erased_buffer
        and data_addr = "0x20000001" and data = bytes_AA and mem = erased_flash
        and out = erased_buffer]
    by blast
qed

subsection \<open>C7: fail-fast on a row failure\<close>

text \<open>
  Claim C7. Take a validated write (and likewise an erase) and any primitive that succeeds
  on the first \<open>N - 1\<close> rows and fails on row \<open>N\<close>. The call returns \<open>-EIO\<close>; the
  calls it has made to the primitive are exactly those for the rows \<open>1, ..., N\<close>, in
  order, and the hardware is in the state the failing call left: nothing is called after
  the failure, so the later rows are untouched and nothing is rolled back. For the
  simulator whose call number \<open>M\<close> fails without effect, the flash then holds the first
  \<open>M - 1\<close> rows of the data (of \<open>0xFF\<close> for the erase) and is unchanged everywhere
  else.
\<close>

theorem fail_fast_on_row_failure:
  assumes "len \<noteq> 0" and "in_bounds cfg offset len"
  shows "(write_block_size cfg \<noteq> 0 \<and> 4 dvd unat (write_block_size cfg)
          \<and> block_aligned (write_block_size cfg) offset len
          \<and> fails_first_at W (write_request_rows cfg offset data len) hw N \<longrightarrow>
          flash_ifx_write (traced W) cfg stack offset data_addr data len (hw, []) =
            Some (Inr (- EIO,
              (hw_after W (take N (write_request_rows cfg offset data len)) hw,
               take N (write_request_rows cfg offset data len)))))
    \<and> (erase_block_size cfg \<noteq> 0 \<and> 4 dvd unat (erase_block_size cfg)
          \<and> block_aligned (erase_block_size cfg) offset len
          \<and> fails_first_at W (erase_request_rows cfg offset len) hw N \<longrightarrow>
          flash_ifx_erase (traced W) cfg stack offset len (hw, []) =
            Some (Inr (- EIO,
              (hw_after W (take N (erase_request_rows cfg offset len)) hw,
               take N (erase_request_rows cfg offset len)))))
    \<and> (write_block_size cfg \<noteq> 0 \<and> 4 dvd unat (write_block_size cfg)
          \<and> block_aligned (write_block_size cfg) offset len
          \<and> 1 \<le> M \<and> M \<le> unat len div unat (write_block_size cfg) \<longrightarrow>
          flash_ifx_write (failing_at M Cy_Flash_WriteRow_sim) cfg stack offset data_addr data
              len (mem, 0) =
            Some (Inr (- EIO,
              (store_bytes mem (base_addr cfg + offset)
                 ((M - 1) * unat (write_block_size cfg)) data, M))))
    \<and> (erase_block_size cfg \<noteq> 0 \<and> 4 dvd unat (erase_block_size cfg)
          \<and> block_aligned (erase_block_size cfg) offset len
          \<and> 1 \<le> M \<and> M \<le> unat len div unat (erase_block_size cfg) \<longrightarrow>
          flash_ifx_erase (failing_at M Cy_Flash_WriteRow_sim) cfg stack offset len (mem, 0) =
            Some (Inr (- EIO,
              (store_bytes mem (base_addr cfg + offset)
                 ((M - 1) * unat (erase_block_size cfg)) erased_buffer, M))))"
proof (intro conjI impI)
  let ?rows = "write_request_rows cfg offset data len"
  assume a: "write_block_size cfg \<noteq> 0 \<and> 4 dvd unat (write_block_size cfg)
    \<and> block_aligned (write_block_size cfg) offset len \<and> fails_first_at W ?rows hw N"
  have "flash_ifx_write (traced W) cfg stack offset data_addr data len (hw, [])
      = Some (Inr (program_rows (traced W) ?rows (hw, [])))"
    unfolding write_request_rows_def
    using assms a by (intro flash_ifx_write_accepts) simp_all
  moreover have "program_rows (traced W) ?rows (hw, [])
      = (- EIO, (hw_after W (take N ?rows) hw, take N ?rows))"
    using a by (intro traced_fail_fast) simp
  ultimately show "flash_ifx_write (traced W) cfg stack offset data_addr data len (hw, []) =
      Some (Inr (- EIO, (hw_after W (take N ?rows) hw, take N ?rows)))"
    by simp
next
  let ?rows = "erase_request_rows cfg offset len"
  assume a: "erase_block_size cfg \<noteq> 0 \<and> 4 dvd unat (erase_block_size cfg)
    \<and> block_aligned (erase_block_size cfg) offset len \<and> fails_first_at W ?rows hw N"
  have "flash_ifx_erase (traced W) cfg stack offset len (hw, [])
      = Some (Inr (program_rows (traced W) ?rows (hw, [])))"
    unfolding erase_request_rows_def
    using assms a by (intro flash_ifx_erase_accepts) simp_all
  moreover have "program_rows (traced W) ?rows (hw, [])
      = (- EIO, (hw_after W (take N ?rows) hw, take N ?rows))"
    using a by (intro traced_fail_fast) simp
  ultimately show "flash_ifx_erase (traced W) cfg stack offset len (hw, []) =
      Some (Inr (- EIO, (hw_after W (take N ?rows) hw, take N ?rows)))"
    by simp
next
  let ?B = "write_block_size cfg"
  assume a: "?B \<noteq> 0 \<and> 4 dvd unat ?B \<and> block_aligned ?B offset len
    \<and> 1 \<le> M \<and> M \<le> unat len div unat ?B"
  have "flash_ifx_write (failing_at M Cy_Flash_WriteRow_sim) cfg stack offset data_addr data
      len (mem, 0)
      = Some (Inr (program_rows (failing_at M Cy_Flash_WriteRow_sim)
          (write_rows ?B (base_addr cfg + offset) data (unat len div unat ?B)) (mem, 0)))"
    using assms a by (intro flash_ifx_write_accepts) simp_all
  moreover have "program_rows (failing_at M Cy_Flash_WriteRow_sim)
      (write_rows ?B (base_addr cfg + offset) data (unat len div unat ?B)) (mem, 0)
      = (- EIO, (store_bytes mem (base_addr cfg + offset) ((M - 1) * unat ?B) data, M))"
    using a failing_sim_request [of ?B offset len M "base_addr cfg + offset" data mem]
    by simp
  ultimately show "flash_ifx_write (failing_at M Cy_Flash_WriteRow_sim) cfg stack offset
      data_addr data len (mem, 0) =
      Some (Inr (- EIO, (store_bytes mem (base_addr cfg + offset) ((M - 1) * unat ?B) data, M)))"
    by simp
next
  let ?B = "erase_block_size cfg"
  assume a: "?B \<noteq> 0 \<and> 4 dvd unat ?B \<and> block_aligned ?B offset len
    \<and> 1 \<le> M \<and> M \<le> unat len div unat ?B"
  have "flash_ifx_erase (failing_at M Cy_Flash_WriteRow_sim) cfg stack offset len (mem, 0)
      = Some (Inr (program_rows (failing_at M Cy_Flash_WriteRow_sim)
          (erase_rows ?B (base_addr cfg + offset) (unat len div unat ?B)) (mem, 0)))"
    using assms a by (intro flash_ifx_erase_accepts) simp_all
  moreover have "program_rows (failing_at M Cy_Flash_WriteRow_sim)
      (erase_rows ?B (base_addr cfg + offset) (unat len div unat ?B)) (mem, 0)
      = (- EIO, (store_bytes mem (base_addr cfg + offset) ((M - 1) * unat ?B) erased_buffer, M))"
    unfolding erase_rows_as_erased_buffer
    using a failing_sim_request [of ?B offset len M "base_addr cfg + offset" erased_buffer mem]
    by simp
  ultimately show "flash_ifx_erase (failing_at M Cy_Flash_WriteRow_sim) cfg stack offset len
      (mem, 0) =
      Some (Inr (- EIO,
        (store_bytes mem (base_addr cfg + offset) ((M - 1) * unat ?B) erased_buffer, M)))"
    by simp
qed

text \<open>
  Three rows on the concrete device, the second one failing.
\<close>

theorem fail_fast_on_row_failure_witness:
  "(768 :: size_t) \<noteq> 0 \<and> in_bounds scenario_cfg 0 768
   \<and> write_block_size scenario_cfg \<noteq> 0 \<and> 4 dvd unat (write_block_size scenario_cfg)
   \<and> block_aligned (write_block_size scenario_cfg) 0 768
   \<and> fails_first_at (failing_at 2 Cy_Flash_WriteRow_sim)
        (write_request_rows scenario_cfg 0 bytes_AA 768) (erased_flash, 0) 2
   \<and> erase_block_size scenario_cfg \<noteq> 0 \<and> 4 dvd unat (erase_block_size scenario_cfg)
   \<and> block_aligned (erase_block_size scenario_cfg) 0 768
   \<and> fails_first_at (failing_at 2 Cy_Flash_WriteRow_sim)
        (erase_request_rows scenario_cfg 0 768) (erased_flash, 0) 2
   \<and> (1 :: nat) \<le> 2 \<and> 2 \<le> unat (768 :: size_t) div unat (write_block_size scenario_cfg)
   \<and> 2 \<le> unat (768 :: size_t) div unat (erase_block_size scenario_cfg)
   \<and> flash_ifx_write (traced (failing_at 2 Cy_Flash_WriteRow_sim)) scenario_cfg erased_buffer 0 0
        bytes_AA 768 ((erased_flash, 0), []) =
          Some (Inr (- EIO,
            (hw_after (failing_at 2 Cy_Flash_WriteRow_sim)
               (take 2 (write_request_rows scenario_cfg 0 bytes_AA 768)) (erased_flash, 0),
             take 2 (write_request_rows scenario_cfg 0 bytes_AA 768))))
   \<and> flash_ifx_erase (traced (failing_at 2 Cy_Flash_WriteRow_sim)) scenario_cfg erased_buffer 0
        768 ((erased_flash, 0), []) =
          Some (Inr (- EIO,
            (hw_after (failing_at 2 Cy_Flash_WriteRow_sim)
               (take 2 (erase_request_rows scenario_cfg 0 768)) (erased_flash, 0),
             take 2 (erase_request_rows scenario_cfg 0 768))))
   \<and> flash_ifx_write (failing_at 2 Cy_Flash_WriteRow_sim) scenario_cfg erased_buffer 0 0
        bytes_AA 768 (zeroed_flash, 0) =
          Some (Inr (- EIO,
            (store_bytes zeroed_flash (base_addr scenario_cfg + 0)
               ((2 - 1) * unat (write_block_size scenario_cfg)) bytes_AA, 2)))
   \<and> flash_ifx_erase (failing_at 2 Cy_Flash_WriteRow_sim) scenario_cfg erased_buffer 0
        768 (zeroed_flash, 0) =
          Some (Inr (- EIO,
            (store_bytes zeroed_flash (base_addr scenario_cfg + 0)
               ((2 - 1) * unat (erase_block_size scenario_cfg)) erased_buffer, 2)))"
proof -
  have h1: "(768 :: size_t) \<noteq> 0" by simp
  have h2: "in_bounds scenario_cfg 0 768" by (simp add: in_bounds_def scenario_cfg_def)
  have w: "write_block_size scenario_cfg \<noteq> 0 \<and> 4 dvd unat (write_block_size scenario_cfg)
    \<and> block_aligned (write_block_size scenario_cfg) 0 768"
    by (simp add: block_aligned_def scenario_cfg_def)
  have e: "erase_block_size scenario_cfg \<noteq> 0 \<and> 4 dvd unat (erase_block_size scenario_cfg)
    \<and> block_aligned (erase_block_size scenario_cfg) 0 768"
    by (simp add: block_aligned_def scenario_cfg_def)
  have wb: "write_block_size scenario_cfg = 256" and eb: "erase_block_size scenario_cfg = 256"
    by (simp_all add: scenario_cfg_def)
  have fw: "fails_first_at (failing_at 2 Cy_Flash_WriteRow_sim)
        (write_request_rows scenario_cfg 0 bytes_AA 768) (erased_flash, 0) 2"
    by (simp only: write_request_rows_def wb three_rows)
       (simp add: fails_first_at_def status_of_call_def hw_after_def failing_at_def
          Cy_Flash_WriteRow_sim_def)
  have fe: "fails_first_at (failing_at 2 Cy_Flash_WriteRow_sim)
        (erase_request_rows scenario_cfg 0 768) (erased_flash, 0) 2"
    by (simp only: erase_request_rows_def eb three_rows)
       (simp add: fails_first_at_def status_of_call_def hw_after_def failing_at_def
          Cy_Flash_WriteRow_sim_def)
  have n: "(1 :: nat) \<le> 2 \<and> 2 \<le> unat (768 :: size_t) div unat (write_block_size scenario_cfg)
    \<and> 2 \<le> unat (768 :: size_t) div unat (erase_block_size scenario_cfg)"
    by (simp add: scenario_cfg_def)
  show ?thesis
    using h1 h2 w e fw fe n
      fail_fast_on_row_failure [OF h1 h2, where W = "failing_at 2 Cy_Flash_WriteRow_sim"
        and N = 2 and M = 2 and data = bytes_AA and hw = "(erased_flash, 0)"
        and mem = zeroed_flash and stack = erased_buffer and data_addr = 0]
    by blast
qed

subsection \<open>C8: erase fills 0xFF\<close>

text \<open>
  Claim C8. With the faithful simulator, recording its calls, an erase of \<open>len \<ge> 1\<close>
  bytes that is in bounds and block-aligned returns 0; it has programmed
  \<open>len / erase_block_size\<close> rows, each of \<open>erase_block_size\<close> bytes, all equal to the
  declared \<open>erase_value\<close> \<open>0xFF\<close>; the flash holds \<open>0xFF\<close> in the whole range and is
  unchanged elsewhere; and reading the range back returns 0 and delivers \<open>erase_value\<close>
  in every byte.
\<close>

theorem erase_fills_FF:
  assumes "erase_block_size cfg \<noteq> 0" and "4 dvd unat (erase_block_size cfg)"
    and "len \<noteq> 0" and "in_bounds cfg offset len"
    and "block_aligned (erase_block_size cfg) offset len"
  shows "flash_ifx_erase (traced Cy_Flash_WriteRow_sim) cfg stack offset len (mem, [])
        = Some (Inr (0, (store_bytes mem (base_addr cfg + offset) (unat len) erased_buffer,
                         erase_request_rows cfg offset len)))
    \<and> length (erase_request_rows cfg offset len) = unat len div unat (erase_block_size cfg)
    \<and> (\<forall>(addr, row) \<in> set (erase_request_rows cfg offset len).
          length row = unat (erase_block_size cfg)
          \<and> (\<forall>b \<in> set row. b = erase_value (flash_parameters dt_write_block_size)))
    \<and> fst (flash_ifx_read cfg
             (store_bytes mem (base_addr cfg + offset) (unat len) erased_buffer)
             offset out len) = 0
    \<and> (\<forall>i<unat len.
          snd (flash_ifx_read cfg
                 (store_bytes mem (base_addr cfg + offset) (unat len) erased_buffer)
                 offset out len) i = erase_value (flash_parameters dt_write_block_size))"
proof -
  let ?B = "erase_block_size cfg"
  let ?rows = "erase_rows ?B (base_addr cfg + offset) (unat len div unat ?B)"
  let ?mem' = "snd (program_rows Cy_Flash_WriteRow_sim ?rows mem)"
  have ev: "erase_value (flash_parameters dt_write_block_size) = 0xFF"
    by (simp add: flash_parameters_def)
  have mem': "?mem' = store_bytes mem (base_addr cfg + offset) (unat len) erased_buffer"
    using sim_request_store [OF assms(1,5), of "base_addr cfg + offset" erased_buffer mem]
    by (simp only: erase_rows_as_write_rows erased_buffer_eq)
  have "flash_ifx_erase (traced Cy_Flash_WriteRow_sim) cfg stack offset len (mem, [])
      = Some (Inr (program_rows (traced Cy_Flash_WriteRow_sim) ?rows (mem, [])))"
    using assms by (intro flash_ifx_erase_accepts) simp_all
  then have run: "flash_ifx_erase (traced Cy_Flash_WriteRow_sim) cfg stack offset len (mem, [])
      = Some (Inr (0, (store_bytes mem (base_addr cfg + offset) (unat len) erased_buffer,
                       erase_request_rows cfg offset len)))"
    by (simp add: program_rows_traced sim_succeeds calls_made_sim mem'
        erase_request_rows_def)
  have len: "length (erase_request_rows cfg offset len) = unat len div unat ?B"
    by (simp add: erase_request_rows_def length_erase_rows)
  have filled: "\<forall>(addr, row) \<in> set (erase_request_rows cfg offset len).
      length row = unat ?B \<and> (\<forall>b \<in> set row. b = erase_value (flash_parameters dt_write_block_size))"
  proof (intro ballI, clarify)
    fix addr row assume "(addr, row) \<in> set (erase_request_rows cfg offset len)"
    then have "(addr, row) \<in> set ?rows" by (simp add: erase_request_rows_def)
    then have "row = replicate (unat ?B) 0xFF" by (rule erase_rows_filled)
    then show "length row = unat ?B
        \<and> (\<forall>b \<in> set row. b = erase_value (flash_parameters dt_write_block_size))"
      by (simp add: ev)
  qed
  have readback: "fst (flash_ifx_read cfg ?mem' offset out len) = 0"
    "\<forall>i<unat len. snd (flash_ifx_read cfg ?mem' offset out len) i = 0xFF"
    using sim_read_back [OF assms(1,3,4,5), of "\<lambda>_. 0xFF" mem out]
    by (simp_all only: erase_rows_as_write_rows)
  show ?thesis
    using run len filled readback by (simp only: mem' ev)
qed

theorem erase_fills_FF_witness:
  "erase_block_size scenario_cfg \<noteq> 0 \<and> 4 dvd unat (erase_block_size scenario_cfg)
   \<and> (256 :: size_t) \<noteq> 0 \<and> in_bounds scenario_cfg 0 256
   \<and> block_aligned (erase_block_size scenario_cfg) 0 256
   \<and> flash_ifx_erase (traced Cy_Flash_WriteRow_sim) scenario_cfg bytes_AA 0 256
        (zeroed_flash, [])
        = Some (Inr (0, (store_bytes zeroed_flash (base_addr scenario_cfg + 0)
                           (unat (256 :: size_t)) erased_buffer,
                         erase_request_rows scenario_cfg 0 256)))
   \<and> length (erase_request_rows scenario_cfg 0 256)
        = unat (256 :: size_t) div unat (erase_block_size scenario_cfg)
   \<and> fst (flash_ifx_read scenario_cfg
             (store_bytes zeroed_flash (base_addr scenario_cfg + 0) (unat (256 :: size_t))
                erased_buffer)
             0 bytes_AA 256) = 0
   \<and> snd (flash_ifx_read scenario_cfg
             (store_bytes zeroed_flash (base_addr scenario_cfg + 0) (unat (256 :: size_t))
                erased_buffer)
             0 bytes_AA 256) 255 = erase_value (flash_parameters 256)"
proof -
  have h1: "erase_block_size scenario_cfg \<noteq> 0" by (simp add: scenario_cfg_def)
  have h2: "4 dvd unat (erase_block_size scenario_cfg)" by (simp add: scenario_cfg_def)
  have h3: "(256 :: size_t) \<noteq> 0" by simp
  have h4: "in_bounds scenario_cfg 0 256" by (simp add: in_bounds_def scenario_cfg_def)
  have h5: "block_aligned (erase_block_size scenario_cfg) 0 256"
    by (simp add: block_aligned_def scenario_cfg_def)
  have i: "255 < unat (256 :: size_t)" by simp
  show ?thesis
    using h1 h2 h3 h4 h5 i
      erase_fills_FF [OF h1 h2 h3 h4 h5, where stack = bytes_AA and mem = zeroed_flash
        and out = bytes_AA and dt_write_block_size = 256]
    by blast
qed

subsection \<open>C9: the staged and the zero-copy branch\<close>

text \<open>
  Claim C9. Let \<open>write_block_size\<close> be a multiple of 4. For every request and every
  primitive, recording its calls, a write from a source that is not 4-byte aligned (the
  staged branch, whatever the row buffer held before) and a write of the same bytes from an
  aligned source (the zero-copy branch) have the same outcome: the same return value, the
  same hardware state and the same sequence of addresses and rows passed to the
  primitive. The test of the pointer made once before the loop holds for every row: the
  row starts \<open>data_addr + j * row_len\<close> are all misaligned, or all aligned.
\<close>

theorem staging_branch_equivalence:
  assumes "4 dvd unat (write_block_size cfg)"
    and "aligned_addr AND 0x3 = 0" and "misaligned_addr AND 0x3 \<noteq> 0"
  shows "flash_ifx_write (traced W) cfg staged_stack offset misaligned_addr data len (hw, [])
       = flash_ifx_write (traced W) cfg direct_stack offset aligned_addr data len (hw, [])
    \<and> (\<forall>j. (misaligned_addr + of_nat j * write_block_size cfg) AND 0x3 \<noteq> 0)
    \<and> (\<forall>j. (aligned_addr + of_nat j * write_block_size cfg) AND 0x3 = 0)"
proof (intro conjI allI)
  show "flash_ifx_write (traced W) cfg staged_stack offset misaligned_addr data len (hw, [])
       = flash_ifx_write (traced W) cfg direct_stack offset aligned_addr data len (hw, [])"
  proof (cases "write_block_size cfg = 0")
    case True
    then show ?thesis by (simp add: flash_ifx_write_def Let_def)
  next
    case False
    then show ?thesis using assms(1) by (simp add: flash_ifx_write_eq)
  qed
next
  fix j
  show "(misaligned_addr + of_nat j * write_block_size cfg) AND 0x3 \<noteq> 0"
    using assms(3) unfolding alignment_invariant [OF assms(1)] .
next
  fix j
  show "(aligned_addr + of_nat j * write_block_size cfg) AND 0x3 = 0"
    using assms(2) unfolding alignment_invariant [OF assms(1)] .
qed

theorem staging_branch_equivalence_witness:
  "4 dvd unat (write_block_size scenario_cfg) \<and> (0x20000000 :: uintptr_t) AND 0x3 = 0
   \<and> (0x20000001 :: uintptr_t) AND 0x3 \<noteq> 0
   \<and> flash_ifx_write (traced Cy_Flash_WriteRow_sim) scenario_cfg erased_buffer 0 0x20000001
          bytes_AA 512 (erased_flash, [])
       = flash_ifx_write (traced Cy_Flash_WriteRow_sim) scenario_cfg bytes_AA 0 0x20000000
          bytes_AA 512 (erased_flash, [])
   \<and> (0x20000001 + of_nat 1 * write_block_size scenario_cfg) AND 0x3 \<noteq> 0
   \<and> (0x20000000 + of_nat 1 * write_block_size scenario_cfg) AND 0x3 = 0"
proof -
  have h1: "4 dvd unat (write_block_size scenario_cfg)" by (simp add: scenario_cfg_def)
  have h2: "(0x20000000 :: uintptr_t) AND 0x3 = 0" by simp
  have h3: "(0x20000001 :: uintptr_t) AND 0x3 \<noteq> 0" by simp
  show ?thesis
    using h1 h2 h3
      staging_branch_equivalence [OF h1 h2 h3, where W = Cy_Flash_WriteRow_sim
        and staged_stack = erased_buffer and direct_stack = bytes_AA and offset = 0
        and data = bytes_AA and len = 512 and hw = erased_flash]
    by blast
qed

subsection \<open>C10: the values returned\<close>

text \<open>
  Claim C10. \<open>flash_ifx_read\<close> returns 0 or \<open>-EINVAL\<close>, never \<open>-EIO\<close>.
  \<open>flash_ifx_write\<close> and \<open>flash_ifx_erase\<close> return (their loops end), and what they
  return is 0, \<open>-EINVAL\<close> or \<open>-EIO\<close>; their block size is a non-zero multiple of 4.
  \<open>flash_ifx_get_size\<close> returns 0 and stores \<open>max_addr - base_addr\<close>, computed in 32
  bits, into its 64-bit output.
\<close>

theorem return_values:
  "fst (flash_ifx_read cfg mem offset out len) \<in> {0, - EINVAL}
   \<and> fst (flash_ifx_read cfg mem offset out len) \<noteq> - EIO
   \<and> (write_block_size cfg \<noteq> 0 \<and> 4 dvd unat (write_block_size cfg) \<longrightarrow>
        (\<exists>r hw'. flash_ifx_write W cfg stack offset data_addr data len hw = Some (Inr (r, hw'))
           \<and> r \<in> {0, - EINVAL, - EIO}))
   \<and> (erase_block_size cfg \<noteq> 0 \<and> 4 dvd unat (erase_block_size cfg) \<longrightarrow>
        (\<exists>r hw'. flash_ifx_erase W cfg stack offset len hw = Some (Inr (r, hw'))
           \<and> r \<in> {0, - EINVAL, - EIO}))
   \<and> fst (flash_ifx_get_size cfg) = 0
   \<and> uint (snd (flash_ifx_get_size cfg)) = uint (max_addr cfg - base_addr cfg)"
proof (intro conjI impI)
  show "fst (flash_ifx_read cfg mem offset out len) \<in> {0, - EINVAL}"
    by (simp add: flash_ifx_read_eq)
  show "fst (flash_ifx_read cfg mem offset out len) \<noteq> - EIO"
    by (simp add: flash_ifx_read_eq EIO_def EINVAL_def)
  show "fst (flash_ifx_get_size cfg) = 0"
    by (simp add: flash_ifx_get_size_def)
  show "uint (snd (flash_ifx_get_size cfg)) = uint (max_addr cfg - base_addr cfg)"
    by (simp add: flash_ifx_get_size_def uint_up_ucast is_up)
next
  assume cfg: "write_block_size cfg \<noteq> 0 \<and> 4 dvd unat (write_block_size cfg)"
  let ?rows = "write_rows (write_block_size cfg) (base_addr cfg + offset) data
                 (unat len div unat (write_block_size cfg))"
  obtain r hw' where pr: "program_rows W ?rows hw = (r, hw')"
    by (cases "program_rows W ?rows hw")
  have r: "r \<in> {0, - EINVAL, - EIO}"
    using program_rows_returns [of W ?rows hw] pr by auto
  have "flash_ifx_write W cfg stack offset data_addr data len hw =
     (if len = 0 then Some (Inr (0, hw))
      else if in_bounds cfg offset len \<and> block_aligned (write_block_size cfg) offset len
        then Some (Inr (r, hw'))
      else Some (Inr (- EINVAL, hw)))"
    using cfg by (simp add: flash_ifx_write_eq pr)
  then show "\<exists>r hw'. flash_ifx_write W cfg stack offset data_addr data len hw = Some (Inr (r, hw'))
      \<and> r \<in> {0, - EINVAL, - EIO}"
    using r by (simp split: if_splits)
next
  assume cfg: "erase_block_size cfg \<noteq> 0 \<and> 4 dvd unat (erase_block_size cfg)"
  let ?rows = "erase_rows (erase_block_size cfg) (base_addr cfg + offset)
                 (unat len div unat (erase_block_size cfg))"
  obtain r hw' where pr: "program_rows W ?rows hw = (r, hw')"
    by (cases "program_rows W ?rows hw")
  have r: "r \<in> {0, - EINVAL, - EIO}"
    using program_rows_returns [of W ?rows hw] pr by auto
  have "flash_ifx_erase W cfg stack offset len hw =
     (if len = 0 then Some (Inr (0, hw))
      else if in_bounds cfg offset len \<and> block_aligned (erase_block_size cfg) offset len
        then Some (Inr (r, hw'))
      else Some (Inr (- EINVAL, hw)))"
    using cfg by (simp add: flash_ifx_erase_eq pr)
  then show "\<exists>r hw'. flash_ifx_erase W cfg stack offset len hw = Some (Inr (r, hw'))
      \<and> r \<in> {0, - EINVAL, - EIO}"
    using r by (simp split: if_splits)
qed

theorem return_values_witness:
  "write_block_size scenario_cfg \<noteq> 0 \<and> 4 dvd unat (write_block_size scenario_cfg)
   \<and> erase_block_size scenario_cfg \<noteq> 0 \<and> 4 dvd unat (erase_block_size scenario_cfg)
   \<and> fst (flash_ifx_read scenario_cfg erased_flash 0 bytes_AA 256) \<in> {0, - EINVAL}
   \<and> fst (flash_ifx_read scenario_cfg erased_flash 0 bytes_AA 256) \<noteq> - EIO
   \<and> (\<exists>r hw'. flash_ifx_write Cy_Flash_WriteRow_sim scenario_cfg bytes_AA 0 1 bytes_AA 256
          erased_flash = Some (Inr (r, hw')) \<and> r \<in> {0, - EINVAL, - EIO})
   \<and> (\<exists>r hw'. flash_ifx_erase Cy_Flash_WriteRow_sim scenario_cfg bytes_AA 0 256
          erased_flash = Some (Inr (r, hw')) \<and> r \<in> {0, - EINVAL, - EIO})
   \<and> fst (flash_ifx_get_size scenario_cfg) = 0
   \<and> uint (snd (flash_ifx_get_size scenario_cfg)) = 0x1000"
proof -
  have w: "write_block_size scenario_cfg \<noteq> 0 \<and> 4 dvd unat (write_block_size scenario_cfg)"
    by (simp add: scenario_cfg_def)
  have e: "erase_block_size scenario_cfg \<noteq> 0 \<and> 4 dvd unat (erase_block_size scenario_cfg)"
    by (simp add: scenario_cfg_def)
  have s: "uint (max_addr scenario_cfg - base_addr scenario_cfg) = 0x1000"
    by (simp add: scenario_cfg_def)
  show ?thesis
    using w e s
      return_values [where W = Cy_Flash_WriteRow_sim and cfg = scenario_cfg
        and offset = 0 and len = 256 and stack = bytes_AA and data_addr = 1 and data = bytes_AA
        and hw = erased_flash and mem = erased_flash and out = bytes_AA]
    by simp
qed

end
